theory Spec2Isabelle
  imports Main "HOL-Library.Word" "HOL-Library.Countable"
begin

unbundle bit_operations_syntax

section \<open>Go values shared by the packages\<close>

text \<open>
  A Go \<^verbatim>\<open>error\<close> is a value. The sentinels of the packages and of the library (compared with \<^verbatim>\<open>==\<close> in the
  source) are constructors of their own; \<^verbatim>\<open>errors.New\<close>, \<^verbatim>\<open>errors.Wrap\<close>, \<^verbatim>\<open>errors.Stack\<close>
  and \<^verbatim>\<open>fmt.Errorf\<close> build new values around a message or a cause; \<open>EnvErr\<close> is a failure
  reported by an external collaborator (operating system, database, JSON library,
  chunker); \<open>Panic\<close> is a run-time panic.
\<close>

datatype error =
    HashNotMatchContentErr
  | HashNotFoundErr
  | ErrNoPrev
  | ErrEmptyBlockchain
  | ErrNoQueryResults
  | ErrIndexVersionsDoNotMatch
  | ErrNoRecord
  | ErrNotExist
  | EOF
  | ErrorsNew string
  | Wrap error string
  | Stack error
  | EnvErr string
  | Panic string

type_synonym bytes = "8 word list"

text \<open>\<^verbatim>\<open>errors.Wrap(err, msg)\<close> and \<^verbatim>\<open>errors.Stack(err)\<close> return nil for a nil error.\<close>

definition errors_Wrap :: "error option \<Rightarrow> string \<Rightarrow> error option" where
  "errors_Wrap err msg = (case err of None \<Rightarrow> None | Some e \<Rightarrow> Some (Wrap e msg))"

definition errors_Stack :: "error option \<Rightarrow> error option" where
  "errors_Stack err = (case err of None \<Rightarrow> None | Some e \<Rightarrow> Some (Stack e))"

text \<open>
  Go's \<^verbatim>\<open>int\<close> is taken at 64 bits: a value of type \<open>int\<close> in the range of \<open>wrap64\<close>,
  with the wrap-around of \<^verbatim>\<open>+\<close> written out. Division truncates toward zero and the
  remainder has the sign of the dividend.
\<close>

definition wrap64 :: "int \<Rightarrow> int" where
  "wrap64 x = (x + 2 ^ 63) mod 2 ^ 64 - 2 ^ 63"

definition go_quot :: "int \<Rightarrow> int \<Rightarrow> int" where
  "go_quot a b = sgn a * sgn b * (\<bar>a\<bar> div \<bar>b\<bar>)"

definition go_rem :: "int \<Rightarrow> int \<Rightarrow> int" where
  "go_rem a b = a - b * go_quot a b"

section \<open>The disk store (package disk)\<close>

text \<open>
  The operating system and the libraries the store calls are parameters: \<open>os_Stat\<close>,
  \<open>ioutil_WriteFile\<close> (which returns the file system it leaves behind), \<open>filepath_Join\<close>
  and \<open>blake2b_Sum256\<close>. The file system \<open>'fs\<close> is the state that is passed along.
\<close>

record 'fs os =
  os_Stat :: "'fs \<Rightarrow> string \<Rightarrow> error option"
  ioutil_WriteFile :: "'fs \<Rightarrow> string \<Rightarrow> bytes \<Rightarrow> error option \<times> 'fs"
  filepath_Join :: "string \<Rightarrow> string \<Rightarrow> string"
  blake2b_Sum256 :: "bytes \<Rightarrow> bytes"

record Disk =
  path :: string

definition os_IsNotExist :: "error option \<Rightarrow> bool" where
  "os_IsNotExist err = (err = Some ErrNotExist)"

definition hextable :: string where
  "hextable = ''0123456789abcdef''"

fun hex_EncodeToString :: "bytes \<Rightarrow> string" where
  "hex_EncodeToString [] = []"
| "hex_EncodeToString (v # src) =
     hextable ! unat (drop_bit 4 v) # hextable ! unat (v AND 0x0f) # hex_EncodeToString src"

definition Disk_Exists :: "'fs os \<Rightarrow> Disk \<Rightarrow> 'fs \<Rightarrow> string \<Rightarrow> error + bool" where
  "Disk_Exists os s fs h =
     (let p = filepath_Join os (path s) h;
          err = os_Stat os fs p
      in if os_IsNotExist err then Inr False
         else (case err of
                 Some e \<Rightarrow> Inl (Wrap e (''disk store failed to stat hash: '' @ h))
               | None \<Rightarrow> Inr True))"

definition Disk_Hash :: "'fs os \<Rightarrow> bytes \<Rightarrow> string" where
  "Disk_Hash os b = (let h = blake2b_Sum256 os b in ''blake2b256-'' @ hex_EncodeToString h)"

text \<open>
  \<open>Disk_writeHash\<close> is the trusted write: it does not verify the hash. (The source text of
  this function has a fragment between the path and the write that does not parse; the
  path and the write themselves are as below.)
\<close>

definition Disk_writeHash :: "'fs os \<Rightarrow> Disk \<Rightarrow> 'fs \<Rightarrow> string \<Rightarrow> bytes \<Rightarrow> error option \<times> 'fs" where
  "Disk_writeHash os s fs h b =
     (let p = filepath_Join os (path s) h;
          (err, fs') = ioutil_WriteFile os fs p b
      in (errors_Wrap err ''failed to write to disk'', fs'))"

definition Disk_Write :: "'fs os \<Rightarrow> Disk \<Rightarrow> 'fs \<Rightarrow> bytes \<Rightarrow> (error + string) \<times> 'fs" where
  "Disk_Write os s fs b =
     (let h = Disk_Hash os b;
          (err, fs') = Disk_writeHash os s fs h b
      in (case err of Some e \<Rightarrow> (Inl e, fs') | None \<Rightarrow> (Inr h, fs')))"

definition Disk_WriteHash :: "'fs os \<Rightarrow> Disk \<Rightarrow> 'fs \<Rightarrow> string \<Rightarrow> bytes \<Rightarrow> error option \<times> 'fs" where
  "Disk_WriteHash os s fs h b =
     (let expectedH = Disk_Hash os b
      in if h \<noteq> expectedH then (Some HashNotMatchContentErr, fs)
         else Disk_writeHash os s fs h b)"

text \<open>
  A file system in memory, to run the store on: an association list from paths to
  contents, newest first. Every path can be written; the digest is a stand-in.
\<close>

definition mem_os :: "((string \<times> bytes) list) os" where
  "mem_os =
     \<lparr> os_Stat = (\<lambda>fs p. case map_of fs p of None \<Rightarrow> Some ErrNotExist | Some _ \<Rightarrow> None),
       ioutil_WriteFile = (\<lambda>fs p b. (None, (p, b) # fs)),
       filepath_Join = (\<lambda>dir h. dir @ ''/'' @ h),
       blake2b_Sum256 = (\<lambda>b. b) \<rparr>"

definition disk0 :: Disk where
  "disk0 = \<lparr> path = ''/kala'' \<rparr>"

section \<open>The database index (package dbindex)\<close>

record index_Query =
  FromEntry :: int
  Limit :: int
  IndexVersion :: string

record index_Results =
  IndexVersion :: string
  Hashes :: "string list"

text \<open>
  The database behind the index is an interface of two reads; a read-only parameter.
\<close>

record database =
  GetNodeId :: "error + string"
  GetIndexEntry :: "int \<Rightarrow> error + string"

text \<open>
  The loop of \<^verbatim>\<open>Query\<close>: \<open>i\<close> runs from 0 while it is below the limit, and stops early at
  the first missing record. It returns the last \<open>i\<close> and the slice it filled.
\<close>

function Query_loop :: "database \<Rightarrow> index_Query \<Rightarrow> int \<Rightarrow> string list \<Rightarrow> error + (int \<times> string list)" where
  "Query_loop db q i indexEntries =
     (if i < Limit q then
        (case GetIndexEntry db (wrap64 (FromEntry q + i)) of
           Inl err \<Rightarrow>
             if err \<noteq> ErrNoRecord then Inl (Wrap err ''failed to get entry from db'')
             else Inr (i, indexEntries)
         | Inr h \<Rightarrow> Query_loop db q (i + 1) (indexEntries[nat i := h]))
      else Inr (i, indexEntries))"
  by pat_completeness auto
termination
  by (relation "measure (\<lambda>(db, q, i, es). nat (Limit q - i))") auto

declare Query_loop.simps [simp del]

text \<open>
  \<^verbatim>\<open>make([]string, q.Limit)\<close> panics on a negative length; the new slice holds empty
  strings.
\<close>

definition Dbindex_Query :: "database \<Rightarrow> index_Query \<Rightarrow> error + index_Results" where
  "Dbindex_Query db q =
     (case GetNodeId db of
        Inl err \<Rightarrow> Inl (Wrap err ''failed to get index version (nodeid)'')
      | Inr indexVersion \<Rightarrow>
          if index_Query.IndexVersion q \<noteq> '''' \<and> indexVersion \<noteq> index_Query.IndexVersion q
          then Inl ErrIndexVersionsDoNotMatch
          else if Limit q = 0 then Inl ErrNoQueryResults
          else if FromEntry q \<noteq> 0 then
            (if Limit q < 0 then Inl (Panic ''makeslice: len out of range'')
             else (case Query_loop db q 0 (replicate (nat (Limit q)) '''') of
                     Inl err \<Rightarrow> Inl err
                   | Inr (i, indexEntries) \<Rightarrow>
                       Inr \<lparr> IndexVersion = indexVersion, Hashes = take (nat i) indexEntries \<rparr>))
          else Inl ErrNoQueryResults)"

text \<open>A database to run the index on: node id \<^verbatim>\<open>v1\<close>, and the given entries at 1, 2, ...\<close>

definition mem_db :: "string list \<Rightarrow> database" where
  "mem_db es =
     \<lparr> GetNodeId = Inr ''v1'',
       GetIndexEntry = (\<lambda>n. if 1 \<le> n \<and> n \<le> int (length es) then Inr (es ! nat (n - 1))
                             else Inl ErrNoRecord) \<rparr>"

section \<open>The HTTP handlers (package node)\<close>

text \<open>
  A reader delivers its data and then, possibly, an error. The response writer keeps
  the status it sent (none until a header or a first write goes out) and the pieces
  written to the body.
\<close>

record ReadCloser =
  data :: bytes
  read_err :: "error option"

datatype piece = Text string | Data bytes

record ResponseWriter =
  status :: "nat option"
  body :: "piece list"

definition new_ResponseWriter :: ResponseWriter where
  "new_ResponseWriter = \<lparr> status = None, body = [] \<rparr>"

definition WriteHeader :: "ResponseWriter \<Rightarrow> nat \<Rightarrow> ResponseWriter" where
  "WriteHeader w code = (if status w = None then w\<lparr> status := Some code \<rparr> else w)"

definition w_Write :: "ResponseWriter \<Rightarrow> piece \<Rightarrow> ResponseWriter" where
  "w_Write w p = (let w' = WriteHeader w 200 in w'\<lparr> body := body w' @ [p] \<rparr>)"

definition http_Error :: "ResponseWriter \<Rightarrow> string \<Rightarrow> nat \<Rightarrow> ResponseWriter" where
  "http_Error w msg code = w_Write (WriteHeader w code) (Text msg)"

text \<open>The status the client sees: 200 when the handler returns without sending one.\<close>

definition final_status :: "ResponseWriter \<Rightarrow> nat" where
  "final_status w = (case status w of None \<Rightarrow> 200 | Some code \<Rightarrow> code)"

definition StatusNotFound :: nat where "StatusNotFound = 404"
definition StatusForbidden :: nat where "StatusForbidden = 403"
definition StatusBadRequest :: nat where "StatusBadRequest = 400"
definition StatusInternalServerError :: nat where "StatusInternalServerError = 500"

definition http_StatusText :: "nat \<Rightarrow> string" where
  "http_StatusText code =
     (if code = 404 then ''Not Found'' else if code = 501 then ''Not Implemented'' else [])"

definition io_Copy :: "ResponseWriter \<Rightarrow> ReadCloser \<Rightarrow> ResponseWriter \<times> error option" where
  "io_Copy w rc = ((if data rc = [] then w else w_Write w (Data (data rc))), read_err rc)"

definition ioutil_ReadAll :: "ReadCloser \<Rightarrow> error + bytes" where
  "ioutil_ReadAll r = (case read_err r of Some e \<Rightarrow> Inl e | None \<Rightarrow> Inr (data r))"

text \<open>
  The store and the index of a node are interfaces: records of operations over the
  store's state \<open>'s\<close>.
\<close>

record 's Store =
  store_Exists :: "'s \<Rightarrow> string \<Rightarrow> error + bool"
  store_Read :: "'s \<Rightarrow> string \<Rightarrow> error + ReadCloser"
  store_WriteHash :: "'s \<Rightarrow> string \<Rightarrow> bytes \<Rightarrow> error option \<times> 's"

record 's Node =
  store :: "'s Store"
  index :: "index_Query \<Rightarrow> error + index_Results"

text \<open>
  A request: the \<^verbatim>\<open>hash\<close> parameter of the route, the query of the URL (a key with its
  first value and the further ones, in the order the map is ranged over) and the body.
\<close>

record Request =
  URLParam_hash :: string
  URL_Query :: "(string \<times> string \<times> string list) list"
  Body :: "ReadCloser option"

text \<open>
  Modelled from the Go library documentation: \<^verbatim>\<open>strconv.Atoi\<close> reads an optional sign and
  decimal digits, and fails on any other text and on a value outside the 64-bit range.
\<close>

definition is_digit :: "char \<Rightarrow> bool" where
  "is_digit c = (c \<in> set ''0123456789'')"

fun digits_value :: "int \<Rightarrow> string \<Rightarrow> int" where
  "digits_value acc [] = acc"
| "digits_value acc (c # cs) = digits_value (acc * 10 + (of_char c - 48)) cs"

definition strconv_Atoi :: "string \<Rightarrow> error + int" where
  "strconv_Atoi s =
     (let neg = (case s of c # t \<Rightarrow> c = CHR ''-'' | [] \<Rightarrow> False);
          ds = (case s of c # t \<Rightarrow> if c = CHR ''-'' \<or> c = CHR ''+'' then t else s | [] \<Rightarrow> s)
      in if ds = [] \<or> \<not> list_all is_digit ds then Inl (EnvErr ''strconv.Atoi: invalid syntax'')
         else (let n = digits_value 0 ds; v = (if neg then - n else n)
               in if v < - (2 ^ 63) \<or> 2 ^ 63 - 1 < v
                  then Inl (EnvErr ''strconv.Atoi: value out of range'')
                  else Inr v))"

definition WriteHashReader ::
  "'s Store option \<Rightarrow> 's \<Rightarrow> string \<Rightarrow> ReadCloser option \<Rightarrow> error option \<times> 's" where
  "WriteHashReader s st h r =
     (case s of
        None \<Rightarrow> (Some (ErrorsNew ''Store is nil''), st)
      | Some s' \<Rightarrow>
          (case r of
             None \<Rightarrow> (Some (ErrorsNew ''Reader is nil''), st)
           | Some r' \<Rightarrow>
               (case ioutil_ReadAll r' of
                  Inl err \<Rightarrow> (Some (Wrap err ''failed to readall''), st)
                | Inr b \<Rightarrow>
                    (let (err, st') = store_WriteHash s' st h b
                     in if err = Some HashNotMatchContentErr then (err, st')
                        else (errors_Wrap err ''store failed to write'', st')))))"

definition HeadBlobHandler :: "'s Node \<Rightarrow> 's \<Rightarrow> ResponseWriter \<Rightarrow> Request \<Rightarrow> ResponseWriter" where
  "HeadBlobHandler n st w r =
     (let hash = URLParam_hash r
      in case store_Exists (store n) st hash of
           Inl err \<Rightarrow> http_Error w ''store Exists failed'' StatusInternalServerError
         | Inr exists \<Rightarrow>
             if \<not> exists then http_Error w (http_StatusText StatusNotFound) StatusNotFound
             else w)"

definition GetBlobHandler :: "'s Node \<Rightarrow> 's \<Rightarrow> ResponseWriter \<Rightarrow> Request \<Rightarrow> ResponseWriter" where
  "GetBlobHandler n st w r =
     (let hash = URLParam_hash r
      in case store_Read (store n) st hash of
           Inl err \<Rightarrow>
             if err = HashNotFoundErr
             then http_Error w (http_StatusText StatusNotFound) StatusNotFound
             else http_Error w ''store Read failed'' StatusInternalServerError
         | Inr rc \<Rightarrow>
             (case io_Copy w rc of
                (w', Some err) \<Rightarrow> http_Error w' ''response write failed'' StatusInternalServerError
              | (w', None) \<Rightarrow> w'))"

definition PutBlobHandler ::
  "'s Node \<Rightarrow> 's \<Rightarrow> ResponseWriter \<Rightarrow> Request \<Rightarrow> ResponseWriter \<times> 's" where
  "PutBlobHandler n st w r =
     (let hash = URLParam_hash r;
          (err, st') = WriteHashReader (Some (store n)) st hash (Body r)
      in if err = Some HashNotMatchContentErr
         then (http_Error w ''content does not match hash'' StatusForbidden, st')
         else (case err of
                 Some e \<Rightarrow> (http_Error w ''store write failed'' StatusInternalServerError, st')
               | None \<Rightarrow> (w, st')))"

text \<open>
  The loop of \<^verbatim>\<open>GetQueryHandler\<close> over the query of the URL: \<open>Inl\<close> is the response of a
  handler that has answered and returned, \<open>Inr\<close> the query built so far.
\<close>

fun query_params :: "ResponseWriter \<Rightarrow> (string \<times> string \<times> string list) list \<Rightarrow> index_Query \<Rightarrow>
    ResponseWriter + index_Query" where
  "query_params w [] q = Inr q"
| "query_params w ((k, v0, vs) # rest) q =
     (if k = ''fromEntry'' then
        (case strconv_Atoi v0 of
           Inl err \<Rightarrow> Inl (http_Error w ''fromEntry must be integer'' StatusInternalServerError)
         | Inr i \<Rightarrow> query_params w rest (q\<lparr> FromEntry := i \<rparr>))
      else if k = ''limit'' then
        (case strconv_Atoi v0 of
           Inl err \<Rightarrow> Inl (http_Error w ''limit must be integer'' StatusInternalServerError)
         | Inr i \<Rightarrow> query_params w rest (q\<lparr> Limit := i \<rparr>))
      else if k = ''indexVersion'' then
        query_params w rest (q\<lparr> index_Query.IndexVersion := v0 \<rparr>)
      else Inl (http_Error w (''invalid query param '' @ k) StatusInternalServerError))"

definition GetQueryHandler ::
  "(index_Results \<Rightarrow> error + bytes) \<Rightarrow> 's Node \<Rightarrow> ResponseWriter \<Rightarrow> Request \<Rightarrow> ResponseWriter" where
  "GetQueryHandler json_Marshal n w r =
     (let q = \<lparr> FromEntry = 0, Limit = 5, IndexVersion = [] \<rparr>
      in case query_params w (URL_Query r) q of
           Inl w' \<Rightarrow> w'
         | Inr q' \<Rightarrow>
             (case index n q' of
                Inl err \<Rightarrow>
                  if err = ErrNoQueryResults
                  then http_Error w (http_StatusText StatusNotFound) StatusNotFound
                  else if err = ErrIndexVersionsDoNotMatch
                  then http_Error w ''index Versions do not match'' StatusInternalServerError
                  else http_Error w ''index Query failed'' StatusInternalServerError
              | Inr result \<Rightarrow>
                  (case json_Marshal result of
                     Inl err \<Rightarrow> http_Error w ''index Query failed'' StatusInternalServerError
                   | Inr b \<Rightarrow> fst (io_Copy w \<lparr> data = b, read_err = None \<rparr>))))"

text \<open>
  A node to run the handlers on: the disk store on the file system in memory, the
  database index, and a JSON encoder that only counts the hashes.
\<close>

definition mem_Read :: "(string \<times> bytes) list \<Rightarrow> string \<Rightarrow> error + ReadCloser" where
  "mem_Read fs h =
     (case map_of fs (filepath_Join mem_os (path disk0) h) of
        None \<Rightarrow> Inl HashNotFoundErr
      | Some b \<Rightarrow> Inr \<lparr> data = b, read_err = None \<rparr>)"

definition mem_node :: "string list \<Rightarrow> ((string \<times> bytes) list) Node" where
  "mem_node es =
     \<lparr> store = \<lparr> store_Exists = Disk_Exists mem_os disk0,
                 store_Read = mem_Read,
                 store_WriteHash = Disk_WriteHash mem_os disk0 \<rparr>,
       index = Dbindex_Query (mem_db es) \<rparr>"

definition count_json :: "index_Results \<Rightarrow> error + bytes" where
  "count_json res = Inr [of_nat (length (Hashes res))]"

definition request :: "string \<Rightarrow> (string \<times> string \<times> string list) list \<Rightarrow> bytes \<Rightarrow> Request" where
  "request h qs b =
     \<lparr> URLParam_hash = h, URL_Query = qs, Body = Some \<lparr> data = b, read_err = None \<rparr> \<rparr>"

section \<open>The textual query parser (package q)\<close>


datatype val = value_String string

record Constraint =
  Operator :: string
  Field :: "string option"
  Value :: "val option"

text \<open>
  Modelled from the spec: the type \<^verbatim>\<open>Query\<close> and its builders \<^verbatim>\<open>New\<close>, \<^verbatim>\<open>Const\<close> and \<^verbatim>\<open>And\<close>
  are not among the sources. "A Query is a boolean tree of Constraints": \<open>Const\<close> makes
  the query of one constraint, \<open>And\<close> the conjunction of the given constraints.
\<close>

datatype Query = Empty | Leaf Constraint | And_node "Query list" | Or_node "Query list"



definition And :: "Query \<Rightarrow> Constraint list \<Rightarrow> Query" where
  "And q cs = And_node (map Leaf cs)"












section \<open>The blob store and the JSON library, as the core sees them\<close>

text \<open>
  Modelled from the spec: the blob store behind the interfaces \<^verbatim>\<open>Store\<close> and \<^verbatim>\<open>BlobWriter\<close>
  is an external collaborator. "Write(bytes)->ref (hash computed internally)",
  "Read(ref)->byte stream, fails NotFound". The store here is the list of what was
  written, newest first, each blob under the ref the hasher gives it; a read finds the
  newest blob under a ref. Writing never fails in this store; the callers keep their
  error branches.

  The hasher and the JSON library (one decoder for each type the core decodes into) are
  parameters, and so are the chunker's constructor and its default roll size. The type
  \<open>'b\<close> is the type of the stored bytes.
\<close>

type_synonym 'b blobs = "(string \<times> 'b) list"

record Chunk =
  ChunkBytes :: bytes
  Size :: int
  StartBoundry :: nat
  EndBoundry :: nat

record Blob =
  ChunkHashes :: "string list"
  Size :: int
  RollSize :: int

text \<open>
  The fields \<open>Hash\<close>, \<open>Index\<close> and \<open>Store\<close> of a content and of a block are not stored
  (\<^verbatim>\<open>json:"-"\<close>); \<open>Store\<close> is the store the record was loaded from, or nil.
\<close>

record 'b Content =
  Id :: string
  PreviousContentHash :: string
  BlobHash :: string
  IndexedFields :: "(string \<times> string) list"
  Hash :: string
  Index :: int
  Store :: "'b blobs option"

record 'b Block =
  Block :: int
  PreviousBlockHash :: string
  ContentHash :: string
  Hash :: string
  Store :: "'b blobs option"

record PartsSchema =
  SchemaType :: string
  Parts :: "string list"
  MoreParts :: "string option"

record DataSchema = PartsSchema +
  Size :: int
  Checksum :: string

datatype 'b jsonable =
    JChunk Chunk
  | JBlob Blob
  | JContent "'b Content"
  | JBlock "'b Block"
  | JParts PartsSchema
  | JData DataSchema

text \<open>
  A chunker yields its chunks one by one and then a last result with an error, which is
  \<open>EOF\<close> at the end of the stream.
\<close>

record Roller =
  rolls :: "Chunk list"
  last_roll :: "Chunk \<times> error"

record 'b env =
  Hasher :: "'b \<Rightarrow> string"
  json_Marshal :: "'b jsonable \<Rightarrow> error + 'b"
  json_Unmarshal_Block :: "'b \<Rightarrow> error + 'b Block"
  json_Unmarshal_Content :: "'b \<Rightarrow> error + 'b Content"
  json_Unmarshal_Parts :: "'b \<Rightarrow> error + PartsSchema"
  camli_New :: "ReadCloser \<Rightarrow> int \<Rightarrow> error + Roller"
  camli_DefaultMinRollSize :: int

definition blobs_Write :: "'b env \<Rightarrow> 'b blobs \<Rightarrow> 'b \<Rightarrow> error + (string \<times> 'b blobs)" where
  "blobs_Write env s b = (let h = Hasher env b in Inr (h, (h, b) # s))"

definition blobs_Read :: "'b blobs \<Rightarrow> string \<Rightarrow> error + 'b" where
  "blobs_Read s h = (case map_of s h of None \<Rightarrow> Inl HashNotFoundErr | Some b \<Rightarrow> Inr b)"

section \<open>The Parts assembler (package wutil)\<close>

definition partSize :: int where
  "partSize = 100"

text \<open>
  Modelled from the spec: the schema tags are constants of package fixity that are not
  among the sources ("an explicit schema-type tag").
\<close>

definition BlobTypeParts :: string where
  "BlobTypeParts = ''parts''"

definition BlobTypeData :: string where
  "BlobTypeData = ''data''"

text \<open>
  A slice expression \<^verbatim>\<open>s[lo:hi]\<close> panics when its bounds are out of range. (Go checks
  \<open>hi\<close> against the capacity; the check here is against the length, which is never more.)
\<close>

definition slice :: "'a list \<Rightarrow> int \<Rightarrow> int \<Rightarrow> error + 'a list" where
  "slice xs lo hi =
     (if 0 \<le> lo \<and> lo \<le> hi \<and> hi \<le> int (length xs)
      then Inr (take (nat (hi - lo)) (drop (nat lo) xs))
      else Inl (Panic ''slice bounds out of range''))"

definition wutil_MarshalAndWrite ::
  "'b env \<Rightarrow> 'b blobs \<Rightarrow> 'b jsonable \<Rightarrow> error + (string \<times> 'b blobs)" where
  "wutil_MarshalAndWrite env w v =
     (case json_Marshal env v of
        Inl err \<Rightarrow> Inl (Wrap err ''marshal'')
      | Inr b \<Rightarrow>
          (case blobs_Write env w b of
             Inl err \<Rightarrow> Inl (Wrap err ''blob write'')
           | Inr (ref, w') \<Rightarrow> Inr (ref, w')))"

text \<open>
  The loop of \<open>WriteData\<close>, \<^verbatim>\<open>for i := morePartCount; i > 0; i--\<close>, by recursion on \<open>i\<close>. It
  passes the writer, the growing \<open>chunkRefs\<close> and \<open>lastPart\<close> along.
\<close>

fun WriteData_loop :: "'b env \<Rightarrow> int \<Rightarrow> int \<Rightarrow> nat \<Rightarrow> 'b blobs \<Rightarrow> string list \<Rightarrow> string option \<Rightarrow>
    error + ('b blobs \<times> string list \<times> string option)" where
  "WriteData_loop env chunkRefLen morePartCount 0 w chunkRefs lastPart =
     Inr (w, chunkRefs, lastPart)"
| "WriteData_loop env chunkRefLen morePartCount (Suc k) w chunkRefs lastPart =
     (let i = int (Suc k);
          startBound = partSize * i;
          endBound = (if i = morePartCount then startBound + go_rem chunkRefLen partSize
                      else startBound + partSize)
      in case slice chunkRefs startBound endBound of
           Inl err \<Rightarrow> Inl err
         | Inr ps \<Rightarrow>
             (let part = \<lparr> SchemaType = BlobTypeParts, Parts = ps, MoreParts = lastPart \<rparr>
              in case wutil_MarshalAndWrite env w (JParts part) of
                   Inl err \<Rightarrow> Inl (Wrap err ''marshalandwrite part'')
                 | Inr (ref, w') \<Rightarrow>
                     WriteData_loop env chunkRefLen morePartCount k w' (chunkRefs @ [ref]) (Some ref)))"

definition WriteData :: "'b env \<Rightarrow> 'b blobs \<Rightarrow> string list \<Rightarrow> int \<Rightarrow> string \<Rightarrow>
    error + ((string list \<times> DataSchema) \<times> 'b blobs)" where
  "WriteData env w chunkRefs totalSize contentHash =
     (let chunkRefLen = int (length chunkRefs);
          morePartCount = go_quot (chunkRefLen - 1) partSize
      in case WriteData_loop env chunkRefLen morePartCount (nat morePartCount) w chunkRefs None of
           Inl err \<Rightarrow> Inl err
         | Inr (w1, chunkRefs1, lastPart) \<Rightarrow>
             (let endBound = (if chunkRefLen < partSize then chunkRefLen else partSize)
              in case slice chunkRefs1 0 endBound of
                   Inl err \<Rightarrow> Inl err
                 | Inr ps \<Rightarrow>
                     (let data = \<lparr> SchemaType = BlobTypeData, Parts = ps, MoreParts = lastPart,
                                   Size = totalSize, Checksum = contentHash \<rparr>
                      in case wutil_MarshalAndWrite env w1 (JData data) of
                           Inl err \<Rightarrow> Inl (Wrap err ''marshalandwrite content'')
                         | Inr (ref, w2) \<Rightarrow> Inr ((chunkRefs1 @ [ref], data), w2))))"

section \<open>Reading a reference tree\<close>

text \<open>\<open>ReadParts\<close> of package store, as it stands in the sources.\<close>

definition ReadParts :: "'s \<Rightarrow> string \<Rightarrow> error option" where
  "ReadParts s h = Some (ErrorsNew ''not implemented'')"

definition ReadAll :: "'b blobs \<Rightarrow> string \<Rightarrow> error + 'b" where
  "ReadAll s h = (case blobs_Read s h of Inl err \<Rightarrow> Inl (Stack err) | Inr b \<Rightarrow> Inr b)"

definition ReadAndUnmarshal :: "('b \<Rightarrow> error + 'v) \<Rightarrow> 'b blobs \<Rightarrow> string \<Rightarrow> error + 'v" where
  "ReadAndUnmarshal json_Unmarshal s h =
     (case ReadAll s h of
        Inl err \<Rightarrow> Inl (Stack err)
      | Inr b \<Rightarrow> (case json_Unmarshal b of Inl err \<Rightarrow> Inl (Stack err) | Inr v \<Rightarrow> Inr v))"

text \<open>
  Modelled from the spec: the reader of a reference tree is not among the sources
  (\<open>ReadParts\<close> above is a stub). "Start at Data, read embedded refs, follow
  \<open>morePartsRef\<close> backward, prepending each page, until empty." \<open>follow_parts\<close> follows the
  links from a ref and returns the pages in the order it visits them; it stops with an
  error when its fuel runs out. \<open>ReadParts_spec\<close> starts at the Data node and prepends
  each page it visits to the refs read so far.
\<close>

fun follow_parts :: "'b env \<Rightarrow> 'b blobs \<Rightarrow> nat \<Rightarrow> string option \<Rightarrow> error + string list list" where
  "follow_parts env s fuel None = Inr []"
| "follow_parts env s 0 (Some ref) = Inl (ErrorsNew ''out of fuel'')"
| "follow_parts env s (Suc fuel) (Some ref) =
     (case ReadAndUnmarshal (json_Unmarshal_Parts env) s ref of
        Inl err \<Rightarrow> Inl err
      | Inr page \<Rightarrow>
          (case follow_parts env s fuel (MoreParts page) of
             Inl err \<Rightarrow> Inl err
           | Inr pages \<Rightarrow> Inr (Parts page # pages)))"


section \<open>Versions and the block chain (packages fixity and local)\<close>

text \<open>
  \<open>Previous\<close> of a content and of a block. (\<^verbatim>\<open>readAndUnmarshal\<close> of package fixity is not
  among the sources; it is taken to be \<open>ReadAndUnmarshal\<close> of package local, above.)
\<close>

definition Content_Previous :: "'b env \<Rightarrow> 'b Content \<Rightarrow> error + 'b Content" where
  "Content_Previous env c =
     (if PreviousContentHash c = [] then Inl ErrNoPrev
      else (case Content.Store c of
              None \<Rightarrow> Inl (ErrorsNew ''content: Store not set'')
            | Some s \<Rightarrow>
                (case ReadAndUnmarshal (json_Unmarshal_Content env) s (PreviousContentHash c) of
                   Inl err \<Rightarrow> Inl err
                 | Inr pc \<Rightarrow>
                     (let pc = pc\<lparr> Content.Hash := PreviousContentHash c,
                                    Content.Store := Content.Store c \<rparr>
                      in if Index c \<noteq> 0 then Inr (pc\<lparr> Index := wrap64 (Index c + 1) \<rparr>)
                         else Inr pc))))"

definition Block_Previous :: "'b env \<Rightarrow> 'b Block \<Rightarrow> error + 'b Block" where
  "Block_Previous env b =
     (if PreviousBlockHash b = [] then Inl ErrNoPrev
      else (case Block.Store b of
              None \<Rightarrow> Inl (ErrorsNew ''block: Store not set'')
            | Some s \<Rightarrow>
                (case ReadAndUnmarshal (json_Unmarshal_Block env) s (PreviousBlockHash b) of
                   Inl err \<Rightarrow> Inl err
                 | Inr previousBlock \<Rightarrow>
                     Inr (previousBlock\<lparr> Block.Hash := PreviousBlockHash b,
                                          Block.Store := Block.Store b \<rparr>))))"

text \<open>
  The local implementation: its store and the head pointer it keeps in its database
  (the value under \<^verbatim>\<open>lastBlock\<close>, if the bucket and the key exist).
\<close>

record 'b Local =
  Local_store :: "'b blobs"
  Local_db :: "string option"

definition getHead :: "'b Local \<Rightarrow> error + string" where
  "getHead l = Inr (case Local_db l of None \<Rightarrow> [] | Some hB \<Rightarrow> hB)"

definition setHead :: "'b Local \<Rightarrow> string \<Rightarrow> error option \<times> 'b Local" where
  "setHead l h = (None, l\<lparr> Local_db := Some h \<rparr>)"

definition MarshalAndWrite ::
  "'b env \<Rightarrow> 'b blobs option \<Rightarrow> 'b jsonable option \<Rightarrow> error + (string \<times> 'b blobs)" where
  "MarshalAndWrite env s v =
     (case s of
        None \<Rightarrow> Inl (ErrorsNew ''Store is nil'')
      | Some s' \<Rightarrow>
          (case v of
             None \<Rightarrow> Inl (ErrorsNew ''Interface is nil'')
           | Some v' \<Rightarrow>
               (case json_Marshal env v' of
                  Inl err \<Rightarrow> Inl (Stack err)
                | Inr b \<Rightarrow>
                    (case blobs_Write env s' b of
                       Inl err \<Rightarrow> Inl (Stack err)
                     | Inr (h, s'') \<Rightarrow> Inr (h, s'')))))"

text \<open>
  The loop of \<open>WriteRoller\<close>: the size of every result is added, also that of the last
  one; every chunk before the end is written.
\<close>

fun WriteRoller_loop :: "'b env \<Rightarrow> 'b blobs \<Rightarrow> Chunk list \<Rightarrow> Chunk \<times> error \<Rightarrow> int \<Rightarrow> string list \<Rightarrow>
    error + ((string list \<times> int) \<times> 'b blobs)" where
  "WriteRoller_loop env s [] (c, err) totalSize hashes =
     (if err \<noteq> EOF then Inl err
      else Inr ((hashes, wrap64 (totalSize + Chunk.Size c)), s))"
| "WriteRoller_loop env s (c # cs) fin totalSize hashes =
     (let totalSize = wrap64 (totalSize + Chunk.Size c)
      in case MarshalAndWrite env (Some s) (Some (JChunk c)) of
           Inl err \<Rightarrow> Inl err
         | Inr (h, s') \<Rightarrow> WriteRoller_loop env s' cs fin totalSize (hashes @ [h]))"

definition WriteRoller :: "'b env \<Rightarrow> 'b blobs \<Rightarrow> Roller \<Rightarrow> error + ((string list \<times> int) \<times> 'b blobs)" where
  "WriteRoller env s r = WriteRoller_loop env s (rolls r) (last_roll r) 0 []"

definition Local_Write :: "'b env \<Rightarrow> 'b Local \<Rightarrow> string \<Rightarrow> ReadCloser option \<Rightarrow> (string \<times> string) list \<Rightarrow>
    error + (string list \<times> 'b Local)" where
  "Local_Write env l id' r f =
     (case r of
        None \<Rightarrow> Inl (ErrorsNew ''no data given to write'')
      | Some r' \<Rightarrow>
     (let rollSize = camli_DefaultMinRollSize env
      in case camli_New env r' rollSize of
        Inl err \<Rightarrow> Inl err
      | Inr roller \<Rightarrow>
     (case WriteRoller env (Local_store l) roller of
        Inl err \<Rightarrow> Inl err
      | Inr ((cHashes, totalSize), s1) \<Rightarrow>
     (let hashes = cHashes;
          blob = \<lparr> ChunkHashes = cHashes, Size = totalSize, RollSize = rollSize \<rparr>
      in case MarshalAndWrite env (Some s1) (Some (JBlob blob)) of
        Inl err \<Rightarrow> Inl err
      | Inr (blobHash, s2) \<Rightarrow>
     (let hashes = hashes @ [blobHash]
      in case getHead l of
        Inl err \<Rightarrow> Inl err
      | Inr previousBlockHash \<Rightarrow>
     (let content = \<lparr> Id = id', PreviousContentHash = [], BlobHash = blobHash,
                      IndexedFields = f, Hash = [], Index = 0, Store = None \<rparr>
      in case MarshalAndWrite env (Some s2) (Some (JContent content)) of
        Inl err \<Rightarrow> Inl err
      | Inr (cHash, s3) \<Rightarrow>
     (let hashes = hashes @ [cHash]
      in case (if previousBlockHash \<noteq> []
               then (case ReadAndUnmarshal (json_Unmarshal_Block env) s3 previousBlockHash of
                       Inl err \<Rightarrow> Inl err
                     | Inr prevBlock \<Rightarrow> Inr (Block prevBlock))
               else Inr 0) of
        Inl err \<Rightarrow> Inl err
      | Inr lastBlock \<Rightarrow>
     (let block = \<lparr> Block = wrap64 (lastBlock + 1), PreviousBlockHash = previousBlockHash,
                    ContentHash = cHash, Hash = [], Store = None \<rparr>
      in case MarshalAndWrite env (Some s3) (Some (JBlock block)) of
        Inl err \<Rightarrow> Inl err
      | Inr (bHash, s4) \<Rightarrow>
     (let hashes = hashes @ [bHash]
      in case setHead (l\<lparr> Local_store := s4 \<rparr>) bHash of
        (Some err, l') \<Rightarrow> Inl err
      | (None, l') \<Rightarrow> Inr (hashes, l'))))))))))"

text \<open>
  A run of appends, each on the state the one before left; it stops at the first that
  fails. A walk from a block: \<open>n\<close> calls of \<open>Previous\<close>, unless one fails, with the blocks
  visited and the error that ended the walk.
\<close>

fun appends :: "'b env \<Rightarrow> 'b Local \<Rightarrow> (string \<times> ReadCloser option \<times> (string \<times> string) list) list \<Rightarrow>
    error + 'b Local" where
  "appends env l [] = Inr l"
| "appends env l ((id', r, f) # ws) =
     (case Local_Write env l id' r f of
        Inl err \<Rightarrow> Inl err
      | Inr (hashes, l') \<Rightarrow> appends env l' ws)"

fun walk_back :: "'b env \<Rightarrow> nat \<Rightarrow> 'b Block \<Rightarrow> 'b Block list \<times> error option" where
  "walk_back env 0 b = ([b], None)"
| "walk_back env (Suc n) b =
     (case Block_Previous env b of
        Inl err \<Rightarrow> ([b], Some err)
      | Inr pb \<Rightarrow> (case walk_back env n pb of (bs, err) \<Rightarrow> (b # bs, err)))"

definition new_Local :: "'b Local" where
  "new_Local = \<lparr> Local_store = [], Local_db = None \<rparr>"

section \<open>What the proofs assume of the collaborators, and an instance\<close>

text \<open>
  The hasher is taken free of collisions, and it never returns the empty string, which
  the code reads as "no ref". The JSON library encodes every value the core hands it,
  and decoding what it encoded gives the stored fields back (the fields that are not
  stored come back as zero values). A store is well formed when every blob lies under
  its own hash.
\<close>

definition hash_ok :: "'b env \<Rightarrow> bool" where
  "hash_ok env \<longleftrightarrow> inj (Hasher env) \<and> (\<forall>b. Hasher env b \<noteq> [])"

definition parts_codec :: "'b env \<Rightarrow> bool" where
  "parts_codec env \<longleftrightarrow>
     (\<forall>p. \<exists>b. json_Marshal env (JParts p) = Inr b \<and> json_Unmarshal_Parts env b = Inr p) \<and>
     (\<forall>d. \<exists>b. json_Marshal env (JData d) = Inr b \<and>
             json_Unmarshal_Parts env b = Inr (PartsSchema.truncate d))"

definition block_codec :: "'b env \<Rightarrow> bool" where
  "block_codec env \<longleftrightarrow>
     (\<forall>blk b. json_Marshal env (JBlock blk) = Inr b \<longrightarrow>
        json_Unmarshal_Block env b = Inr (blk\<lparr> Block.Hash := [], Block.Store := None \<rparr>))"

definition wf_store :: "'b env \<Rightarrow> 'b blobs \<Rightarrow> bool" where
  "wf_store env s \<longleftrightarrow> (\<forall>(h, b) \<in> set s. h = Hasher env b)"

text \<open>
  The invariant of the block chain. \<open>head_ref\<close> is the ref the head pointer holds, empty
  when it holds none. The ref \<open>h\<close> names a chain of \<open>k\<close> blocks in the store \<open>s\<close>,
  numbered \<open>k\<close> down to 1, when \<open>h\<close> is empty and \<open>k = 0\<close>, or \<open>h\<close> is the ref of a stored
  block with number \<open>k\<close> whose previous ref names a chain of \<open>k - 1\<close> blocks.
\<close>

definition head_ref :: "'b Local \<Rightarrow> string" where
  "head_ref l = (case Local_db l of None \<Rightarrow> [] | Some h \<Rightarrow> h)"

fun chain :: "'b env \<Rightarrow> 'b blobs \<Rightarrow> string \<Rightarrow> nat \<Rightarrow> bool" where
  "chain env s h 0 = (h = [])"
| "chain env s h (Suc k) =
     (h \<noteq> [] \<and>
      (\<exists>x blk. (h, x) \<in> set s \<and> json_Unmarshal_Block env x = Inr blk \<and>
         Block blk = int (Suc k) \<and> chain env s (PreviousBlockHash blk) k))"

text \<open>
  An instance to run the core on. The stored bytes are the stored fields themselves,
  tagged by their kind; decoding a document of another kind gives the zero value, as the
  JSON decoder does when no field matches. The hasher is a collision-free stand-in
  (as many marks as the code of the document, and one more). The chunker makes one
  chunk of the whole stream.
\<close>

datatype wire =
    WChunk bytes int
  | WBlob "string list" int int
  | WContent string string string "(string \<times> string) list"
  | WBlock int string string
  | WParts string "string list" "string option"
  | WData string "string list" "string option" int string

instance wire :: countable
  by countable_datatype

definition wire_Hasher :: "wire \<Rightarrow> string" where
  "wire_Hasher b = replicate (Suc (to_nat b)) (CHR ''#'')"

definition wire_Marshal :: "wire jsonable \<Rightarrow> error + wire" where
  "wire_Marshal v =
     Inr (case v of
            JChunk c \<Rightarrow> WChunk (ChunkBytes c) (Chunk.Size c)
          | JBlob b \<Rightarrow> WBlob (ChunkHashes b) (Blob.Size b) (RollSize b)
          | JContent c \<Rightarrow> WContent (Id c) (PreviousContentHash c) (BlobHash c) (IndexedFields c)
          | JBlock b \<Rightarrow> WBlock (Block b) (PreviousBlockHash b) (ContentHash b)
          | JParts p \<Rightarrow> WParts (SchemaType p) (Parts p) (MoreParts p)
          | JData d \<Rightarrow> WData (SchemaType d) (Parts d) (MoreParts d) (DataSchema.Size d) (Checksum d))"

definition wire_Unmarshal_Block :: "wire \<Rightarrow> error + wire Block" where
  "wire_Unmarshal_Block b =
     Inr (case b of
            WBlock n p c \<Rightarrow>
              \<lparr> Block = n, PreviousBlockHash = p, ContentHash = c, Hash = [], Store = None \<rparr>
          | _ \<Rightarrow> \<lparr> Block = 0, PreviousBlockHash = [], ContentHash = [], Hash = [], Store = None \<rparr>)"

definition wire_Unmarshal_Content :: "wire \<Rightarrow> error + wire Content" where
  "wire_Unmarshal_Content b =
     Inr (case b of
            WContent i p bh f \<Rightarrow>
              \<lparr> Id = i, PreviousContentHash = p, BlobHash = bh, IndexedFields = f,
                Hash = [], Index = 0, Store = None \<rparr>
          | _ \<Rightarrow> \<lparr> Id = [], PreviousContentHash = [], BlobHash = [], IndexedFields = [],
                  Hash = [], Index = 0, Store = None \<rparr>)"

definition wire_Unmarshal_Parts :: "wire \<Rightarrow> error + PartsSchema" where
  "wire_Unmarshal_Parts b =
     Inr (case b of
            WParts t ps m \<Rightarrow> \<lparr> SchemaType = t, Parts = ps, MoreParts = m \<rparr>
          | WData t ps m sz ck \<Rightarrow> \<lparr> SchemaType = t, Parts = ps, MoreParts = m \<rparr>
          | _ \<Rightarrow> \<lparr> SchemaType = [], Parts = [], MoreParts = None \<rparr>)"

definition one_chunk :: "ReadCloser \<Rightarrow> int \<Rightarrow> error + Roller" where
  "one_chunk r rollSize =
     (case read_err r of
        Some err \<Rightarrow> Inl err
      | None \<Rightarrow>
          Inr \<lparr> rolls = [\<lparr> ChunkBytes = data r, Size = int (length (data r)),
                            StartBoundry = 0, EndBoundry = length (data r) \<rparr>],
                last_roll = (\<lparr> ChunkBytes = [], Size = 0, StartBoundry = 0, EndBoundry = 0 \<rparr>, EOF) \<rparr>)"

definition wire_env :: "wire env" where
  "wire_env =
     \<lparr> Hasher = wire_Hasher,
       json_Marshal = wire_Marshal,
       json_Unmarshal_Block = wire_Unmarshal_Block,
       json_Unmarshal_Content = wire_Unmarshal_Content,
       json_Unmarshal_Parts = wire_Unmarshal_Parts,
       camli_New = one_chunk,
       camli_DefaultMinRollSize = 64 \<rparr>"

section \<open>Properties of the disk store\<close>

text \<open>
  C3. \<open>Disk_WriteHash\<close> succeeds only if the hash of the bytes is the given ref. When they
  differ it returns \<open>HashNotMatchContentErr\<close> and the file system it returns is the one
  it was given; so \<open>Disk_Exists\<close> answers as before, and stays false if it was false.
\<close>

theorem WriteHash_rejects_mismatch:
  "(fst (Disk_WriteHash os s fs h b) = None \<longrightarrow> Disk_Hash os b = h) \<and>
   (h \<noteq> Disk_Hash os b \<longrightarrow>
      Disk_WriteHash os s fs h b = (Some HashNotMatchContentErr, fs) \<and>
      Disk_Exists os s (snd (Disk_WriteHash os s fs h b)) h = Disk_Exists os s fs h \<and>
      (Disk_Exists os s fs h = Inr False \<longrightarrow>
         Disk_Exists os s (snd (Disk_WriteHash os s fs h b)) h = Inr False))"
  by (simp add: Disk_WriteHash_def Let_def)

theorem WriteHash_rejects_mismatch_witness:
  "fst (Disk_WriteHash mem_os disk0 [] (Disk_Hash mem_os [1, 2]) [1, 2]) = None \<and>
   ''wrong'' \<noteq> Disk_Hash mem_os [1, 2] \<and>
   Disk_Exists mem_os disk0 [] ''wrong'' = Inr False \<and>
   Disk_WriteHash mem_os disk0 [] ''wrong'' [1, 2] = (Some HashNotMatchContentErr, []) \<and>
   Disk_Exists mem_os disk0 (snd (Disk_WriteHash mem_os disk0 [] ''wrong'' [1, 2])) ''wrong'' = Inr False"
proof -
  have ok: "fst (Disk_WriteHash mem_os disk0 [] (Disk_Hash mem_os [1, 2]) [1, 2]) = None"
    by (simp add: Disk_WriteHash_def Disk_writeHash_def mem_os_def errors_Wrap_def Let_def)
  have ne: "''wrong'' \<noteq> Disk_Hash mem_os [1, 2]"
    by (simp add: Disk_Hash_def)
  have ex: "Disk_Exists mem_os disk0 [] ''wrong'' = Inr False"
    by (simp add: Disk_Exists_def mem_os_def os_IsNotExist_def)
  from WriteHash_rejects_mismatch [of mem_os disk0 "[]" "''wrong''" "[1, 2]"] ok ne ex
  show ?thesis by simp
qed

text \<open>
  C9. \<open>Disk_Write\<close> called twice on the same bytes returns the same ref both times (whatever
  the first call left behind), and two writes of equal bytes, on any disk and in any
  state, return equal refs: the ref is \<open>Disk_Hash\<close> of the bytes, the tag
  \<^verbatim>\<open>blake2b256-\<close> followed by the digest in hexadecimal.
\<close>

theorem Write_same_ref:
  "(Disk_Write os s fs b = (Inr r1, fs1) \<and> Disk_Write os s fs1 b = (Inr r2, fs2) \<longrightarrow> r1 = r2) \<and>
   (Disk_Write os s fs b = (Inr r1, fs1) \<and> Disk_Write os s' fs' b' = (Inr r2, fs2) \<and> b = b' \<longrightarrow>
      r1 = r2 \<and> r1 = Disk_Hash os b \<and>
      r1 = ''blake2b256-'' @ hex_EncodeToString (blake2b_Sum256 os b))"
  by (auto simp: Disk_Write_def Disk_Hash_def Let_def split: prod.splits option.splits)

theorem Write_same_ref_witness:
  "fst (Disk_Write mem_os disk0 [] [1, 2]) = Inr ''blake2b256-0102'' \<and>
   fst (Disk_Write mem_os disk0 (snd (Disk_Write mem_os disk0 [] [1, 2])) [1, 2]) = Inr ''blake2b256-0102''"
proof -
  define fs1 where "fs1 = snd (Disk_Write mem_os disk0 [] [1, 2])"
  define fs2 where "fs2 = snd (Disk_Write mem_os disk0 fs1 [1, 2])"
  have w1: "Disk_Write mem_os disk0 [] [1, 2] = (Inr (Disk_Hash mem_os [1, 2]), fs1)"
    unfolding fs1_def
    by (simp add: Disk_Write_def Disk_writeHash_def mem_os_def errors_Wrap_def Let_def)
  have w2: "Disk_Write mem_os disk0 fs1 [1, 2] = (Inr (Disk_Hash mem_os [1, 2]), fs2)"
    unfolding fs2_def
    by (simp add: Disk_Write_def Disk_writeHash_def mem_os_def errors_Wrap_def Let_def)
  from Write_same_ref [of mem_os disk0 "[]" "[1, 2]" "Disk_Hash mem_os [1, 2]" fs1
      "Disk_Hash mem_os [1, 2]" fs2 disk0 fs1 "[1, 2]"] w1 w2
  have "Disk_Hash mem_os [1, 2] = ''blake2b256-'' @ hex_EncodeToString (blake2b_Sum256 mem_os [1, 2])"
    by blast
  also have "blake2b_Sum256 mem_os [1, 2] = [1, 2]"
    by (simp add: mem_os_def)
  also have "hex_EncodeToString [1, 2] = ''0102''"
    by (simp add: hextable_def drop_bit_eq_div)
  finally have h: "Disk_Hash mem_os [1, 2] = ''blake2b256-0102''"
    by simp
  from w1 h have a: "fst (Disk_Write mem_os disk0 [] [1, 2]) = Inr ''blake2b256-0102''"
    by simp
  from w2 h have b: "fst (Disk_Write mem_os disk0 fs1 [1, 2]) = Inr ''blake2b256-0102''"
    by simp
  from a b show ?thesis
    unfolding fs1_def by (rule conjI)
qed

section \<open>Properties of the index and the handlers\<close>

lemma Query_loop_error:
  "Query_loop db q i es = Inl e \<Longrightarrow> \<exists>e' msg. e = Wrap e' msg"
proof (induction db q i es rule: Query_loop.induct)
  case (1 db q i indexEntries)
  from "1.prems" show ?case
    by (subst (asm) Query_loop.simps) (auto split: if_splits sum.splits dest: "1.IH")
qed

lemma Query_version_mismatch_iff:
  "Dbindex_Query db q = Inl ErrIndexVersionsDoNotMatch \<longleftrightarrow>
     (\<exists>v. GetNodeId db = Inr v \<and> index_Query.IndexVersion q \<noteq> [] \<and>
          v \<noteq> index_Query.IndexVersion q)"
  by (auto simp: Dbindex_Query_def split: sum.splits if_splits dest: Query_loop_error)

lemma Query_limit_zero:
  "GetNodeId db = Inr v \<Longrightarrow> index_Query.IndexVersion q = [] \<or> v = index_Query.IndexVersion q \<Longrightarrow>
   Limit q = 0 \<Longrightarrow> Dbindex_Query db q = Inl ErrNoQueryResults"
  by (auto simp: Dbindex_Query_def)

lemma query_params_keeps_limit:
  "\<forall>(k, v0, vs) \<in> set ps. k \<noteq> ''limit'' \<Longrightarrow> query_params w ps q = Inr q' \<Longrightarrow> Limit q' = Limit q"
  by (induction ps arbitrary: q) (auto split: if_splits sum.splits)

lemma GetQueryHandler_default_limit:
  "\<forall>(k, v0, vs) \<in> set (URL_Query r). k \<noteq> ''limit'' \<Longrightarrow>
   query_params w (URL_Query r) \<lparr> FromEntry = 0, Limit = 5, IndexVersion = [] \<rparr> = Inr q' \<Longrightarrow>
   Limit q' = 5"
  by (drule (1) query_params_keeps_limit) simp

text \<open>
  C6. The index query returns the typed no-results error when the requested page is
  empty. On the code it does not: with a nonzero \<open>FromEntry\<close> and no record at that
  entry, the loop stops at once and the call succeeds with an empty list of hashes; the
  query endpoint then answers 200.
\<close>

theorem Query_empty_page_succeeds:
  "Dbindex_Query (mem_db []) \<lparr> FromEntry = 1, Limit = 5, IndexVersion = [] \<rparr> =
     Inr \<lparr> IndexVersion = ''v1'', Hashes = [] \<rparr> \<and>
   Dbindex_Query (mem_db []) \<lparr> FromEntry = 1, Limit = 5, IndexVersion = [] \<rparr> \<noteq>
     Inl ErrNoQueryResults \<and>
   final_status (GetQueryHandler count_json (mem_node []) new_ResponseWriter
      (request [] [(''fromEntry'', ''1'', [])] [])) = 200"
  by code_simp

text \<open>
  C10, as stated: every query with \<open>FromEntry = 0\<close> gets the no-results error. A query
  whose index version disagrees with the database's gets the version error first.
\<close>

theorem Query_FromEntry_zero_counterexample:
  "FromEntry \<lparr> FromEntry = 0, Limit = 5, IndexVersion = ''v2'' \<rparr> = 0 \<and>
   Dbindex_Query (mem_db [''a'', ''b'']) \<lparr> FromEntry = 0, Limit = 5, IndexVersion = ''v2'' \<rparr> =
     Inl ErrIndexVersionsDoNotMatch \<and>
   Dbindex_Query (mem_db [''a'', ''b'']) \<lparr> FromEntry = 0, Limit = 5, IndexVersion = ''v2'' \<rparr> \<noteq>
     Inl ErrNoQueryResults"
  by code_simp

text \<open>
  C10, amended. When the node id is read and the index version of the query is empty or
  equal to it, a query with \<open>FromEntry = 0\<close> gets the no-results error, whatever the
  index holds; and with \<open>FromEntry = 0\<close> the result never depends on the entries (none is
  fetched).
\<close>

theorem Query_FromEntry_zero:
  assumes "FromEntry q = 0"
  shows "(GetNodeId db = Inr v \<and>
            (index_Query.IndexVersion q = [] \<or> v = index_Query.IndexVersion q) \<longrightarrow>
          Dbindex_Query db q = Inl ErrNoQueryResults) \<and>
         Dbindex_Query (db\<lparr> GetIndexEntry := g \<rparr>) q = Dbindex_Query db q"
  using assms by (auto simp: Dbindex_Query_def split: sum.splits)

theorem Query_FromEntry_zero_witness:
  "Dbindex_Query (mem_db [''a'', ''b'']) \<lparr> FromEntry = 0, Limit = 5, IndexVersion = [] \<rparr> =
     Inl ErrNoQueryResults \<and>
   Dbindex_Query (mem_db [''a'', ''b'']) \<lparr> FromEntry = 0, Limit = 5, IndexVersion = ''v1'' \<rparr> =
     Inl ErrNoQueryResults"
proof -
  have n: "GetNodeId (mem_db [''a'', ''b'']) = Inr ''v1''"
    by (simp add: mem_db_def)
  from Query_FromEntry_zero [of "\<lparr> FromEntry = 0, Limit = 5, IndexVersion = [] \<rparr>"
      "mem_db [''a'', ''b'']" "''v1''"] n
  have a: "Dbindex_Query (mem_db [''a'', ''b'']) \<lparr> FromEntry = 0, Limit = 5, IndexVersion = [] \<rparr> =
     Inl ErrNoQueryResults"
    by simp
  from Query_FromEntry_zero [of "\<lparr> FromEntry = 0, Limit = 5, IndexVersion = ''v1'' \<rparr>"
      "mem_db [''a'', ''b'']" "''v1''"] n
  have b: "Dbindex_Query (mem_db [''a'', ''b'']) \<lparr> FromEntry = 0, Limit = 5, IndexVersion = ''v1'' \<rparr> =
     Inl ErrNoQueryResults"
    by simp
  from a b show ?thesis by (rule conjI)
qed

lemma final_status_http_Error:
  "final_status (http_Error new_ResponseWriter msg code) = code"
  by (simp add: final_status_def http_Error_def w_Write_def WriteHeader_def
      new_ResponseWriter_def Let_def)

lemma query_params_Inl_status:
  "query_params new_ResponseWriter ps q = Inl w' \<Longrightarrow> final_status w' = 500"
  by (induction ps arbitrary: q)
     (auto simp: final_status_http_Error StatusInternalServerError_def
           split: if_splits sum.splits)

lemma query_params_invalid:
  "\<exists>(k, v0, vs) \<in> set ps.
      k \<notin> {''fromEntry'', ''limit'', ''indexVersion''} \<or>
      (k \<in> {''fromEntry'', ''limit''} \<and> (\<exists>e. strconv_Atoi v0 = Inl e)) \<Longrightarrow>
   \<exists>w'. query_params w ps q = Inl w'"
proof (induction ps arbitrary: q)
  case Nil
  then show ?case by simp
next
  case (Cons p ps)
  obtain k v0 vs where p: "p = (k, v0, vs)" by (cases p)
  show ?case
  proof (cases "k \<notin> {''fromEntry'', ''limit'', ''indexVersion''} \<or>
      (k \<in> {''fromEntry'', ''limit''} \<and> (\<exists>e. strconv_Atoi v0 = Inl e))")
    case True
    then show ?thesis unfolding p by auto
  next
    case False
    with Cons.prems p have "\<exists>(k, v0, vs) \<in> set ps.
      k \<notin> {''fromEntry'', ''limit'', ''indexVersion''} \<or>
      (k \<in> {''fromEntry'', ''limit''} \<and> (\<exists>e. strconv_Atoi v0 = Inl e))"
      by auto
    from Cons.IH [OF this] show ?thesis
      unfolding p by (auto split: sum.splits)
  qed
qed

text \<open>
  C7, as stated: the query endpoint answers 400 on an invalid query parameter. It
  answers 500.
\<close>

theorem GetQueryHandler_invalid_param_counterexample:
  "final_status (GetQueryHandler count_json (mem_node []) new_ResponseWriter
      (request [] [(''limit'', ''abc'', [])] [])) = 500 \<and>
   final_status (GetQueryHandler count_json (mem_node []) new_ResponseWriter
      (request [] [(''limit'', ''abc'', [])] [])) \<noteq> StatusBadRequest \<and>
   final_status (GetQueryHandler count_json (mem_node []) new_ResponseWriter
      (request [] [(''colour'', ''red'', [])] [])) = 500"
  by code_simp

text \<open>
  C7, amended. Checking or reading a blob that is absent answers 404; writing by ref
  answers 403 on a hash mismatch; the query endpoint answers 404 when the index returns
  the no-results error, 500 on any other error of the index, and 500 (not 400) when a
  query parameter is unknown or its value is not an integer.
\<close>

theorem handler_statuses:
  "(store_Exists (store n) st (URLParam_hash r) = Inr False \<longrightarrow>
      final_status (HeadBlobHandler n st new_ResponseWriter r) = 404) \<and>
   (store_Read (store n) st (URLParam_hash r) = Inl HashNotFoundErr \<longrightarrow>
      final_status (GetBlobHandler n st new_ResponseWriter r) = 404) \<and>
   (Body r = Some rc \<and> read_err rc = None \<and>
    fst (store_WriteHash (store n) st (URLParam_hash r) (data rc)) = Some HashNotMatchContentErr \<longrightarrow>
      final_status (fst (PutBlobHandler n st new_ResponseWriter r)) = 403) \<and>
   (query_params new_ResponseWriter (URL_Query r)
        \<lparr> FromEntry = 0, Limit = 5, IndexVersion = [] \<rparr> = Inr q \<longrightarrow>
      (index n q = Inl ErrNoQueryResults \<longrightarrow>
         final_status (GetQueryHandler jm n new_ResponseWriter r) = 404) \<and>
      (index n q = Inl e \<and> e \<noteq> ErrNoQueryResults \<longrightarrow>
         final_status (GetQueryHandler jm n new_ResponseWriter r) = 500)) \<and>
   ((\<exists>(k, v0, vs) \<in> set (URL_Query r).
        k \<notin> {''fromEntry'', ''limit'', ''indexVersion''} \<or>
        (k \<in> {''fromEntry'', ''limit''} \<and> (\<exists>e. strconv_Atoi v0 = Inl e))) \<longrightarrow>
      final_status (GetQueryHandler jm n new_ResponseWriter r) = 500)"
proof (intro conjI impI)
  assume "store_Exists (store n) st (URLParam_hash r) = Inr False"
  then show "final_status (HeadBlobHandler n st new_ResponseWriter r) = 404"
    by (simp add: HeadBlobHandler_def final_status_http_Error StatusNotFound_def)
next
  assume "store_Read (store n) st (URLParam_hash r) = Inl HashNotFoundErr"
  then show "final_status (GetBlobHandler n st new_ResponseWriter r) = 404"
    by (simp add: GetBlobHandler_def final_status_http_Error StatusNotFound_def)
next
  assume "Body r = Some rc \<and> read_err rc = None \<and>
    fst (store_WriteHash (store n) st (URLParam_hash r) (data rc)) = Some HashNotMatchContentErr"
  then show "final_status (fst (PutBlobHandler n st new_ResponseWriter r)) = 403"
    by (auto simp: PutBlobHandler_def WriteHashReader_def ioutil_ReadAll_def
        final_status_http_Error StatusForbidden_def Let_def split: prod.splits)
next
  assume "query_params new_ResponseWriter (URL_Query r)
        \<lparr> FromEntry = 0, Limit = 5, IndexVersion = [] \<rparr> = Inr q"
     and "index n q = Inl ErrNoQueryResults"
  then show "final_status (GetQueryHandler jm n new_ResponseWriter r) = 404"
    by (simp add: GetQueryHandler_def final_status_http_Error StatusNotFound_def)
next
  assume "query_params new_ResponseWriter (URL_Query r)
        \<lparr> FromEntry = 0, Limit = 5, IndexVersion = [] \<rparr> = Inr q"
     and "index n q = Inl e \<and> e \<noteq> ErrNoQueryResults"
  then show "final_status (GetQueryHandler jm n new_ResponseWriter r) = 500"
    by (simp add: GetQueryHandler_def final_status_http_Error StatusInternalServerError_def)
next
  assume "\<exists>(k, v0, vs) \<in> set (URL_Query r).
        k \<notin> {''fromEntry'', ''limit'', ''indexVersion''} \<or>
        (k \<in> {''fromEntry'', ''limit''} \<and> (\<exists>e. strconv_Atoi v0 = Inl e))"
  from query_params_invalid [OF this]
  obtain w' where w': "query_params new_ResponseWriter (URL_Query r)
        \<lparr> FromEntry = 0, Limit = 5, IndexVersion = [] \<rparr> = Inl w'"
    by blast
  with query_params_Inl_status [OF w']
  show "final_status (GetQueryHandler jm n new_ResponseWriter r) = 500"
    by (simp add: GetQueryHandler_def)
qed

theorem handler_statuses_witness:
  "final_status (HeadBlobHandler (mem_node []) [] new_ResponseWriter (request ''wrong'' [] [1, 2])) = 404 \<and>
   final_status (GetBlobHandler (mem_node []) [] new_ResponseWriter (request ''wrong'' [] [1, 2])) = 404 \<and>
   final_status (fst (PutBlobHandler (mem_node []) [] new_ResponseWriter (request ''wrong'' [] [1, 2]))) = 403 \<and>
   final_status (GetQueryHandler count_json (mem_node []) new_ResponseWriter
      (request ''wrong'' [] [1, 2])) = 404 \<and>
   final_status (GetQueryHandler count_json (mem_node []) new_ResponseWriter
      (request [] [(''indexVersion'', ''v2'', [])] [])) = 500 \<and>
   final_status (GetQueryHandler count_json (mem_node []) new_ResponseWriter
      (request [] [(''limit'', ''abc'', [])] [])) = 500"
proof -
  let ?n = "mem_node []"
  let ?r1 = "request ''wrong'' [] [1, 2]"
  let ?r2 = "request [] [(''indexVersion'', ''v2'', [])] []"
  let ?r3 = "request [] [(''limit'', ''abc'', [])] []"
  let ?q0 = "\<lparr> FromEntry = 0, Limit = 5, IndexVersion = [] \<rparr>"
  let ?q2 = "\<lparr> FromEntry = 0, Limit = 5, IndexVersion = ''v2'' \<rparr>"
  have e1: "store_Exists (store ?n) [] (URLParam_hash ?r1) = Inr False"
    by code_simp
  have e2: "store_Read (store ?n) [] (URLParam_hash ?r1) = Inl HashNotFoundErr"
    by code_simp
  have e3: "Body ?r1 = Some \<lparr> data = [1, 2], read_err = None \<rparr>"
    by (simp add: request_def)
  have e4: "fst (store_WriteHash (store ?n) [] (URLParam_hash ?r1) [1, 2]) = Some HashNotMatchContentErr"
    by code_simp
  have e5: "query_params new_ResponseWriter (URL_Query ?r1) ?q0 = Inr ?q0"
    by (simp add: request_def)
  have e6: "index ?n ?q0 = Inl ErrNoQueryResults"
    by code_simp
  have e7: "query_params new_ResponseWriter (URL_Query ?r2) ?q0 = Inr ?q2"
    by (simp add: request_def)
  have e8: "index ?n ?q2 = Inl ErrIndexVersionsDoNotMatch"
    by code_simp
  have e9: "strconv_Atoi ''abc'' = Inl (EnvErr ''strconv.Atoi: invalid syntax'')"
    by code_simp
  have e10: "\<exists>(k, v0, vs) \<in> set (URL_Query ?r3).
        k \<notin> {''fromEntry'', ''limit'', ''indexVersion''} \<or>
        (k \<in> {''fromEntry'', ''limit''} \<and> (\<exists>e. strconv_Atoi v0 = Inl e))"
    using e9 by (simp add: request_def)
  note t1 = handler_statuses [where n = ?n and st = "[]" and r = ?r1
      and rc = "\<lparr> data = [1, 2], read_err = None \<rparr>" and q = ?q0 and jm = count_json]
  note t2 = handler_statuses [where n = ?n and st = "[]" and r = ?r2 and q = ?q2
      and e = ErrIndexVersionsDoNotMatch and jm = count_json]
  note t3 = handler_statuses [where n = ?n and st = "[]" and r = ?r3 and jm = count_json]
  from t1 [THEN conjunct1, THEN mp, OF e1]
  have c1: "final_status (HeadBlobHandler ?n [] new_ResponseWriter ?r1) = 404" .
  from t1 [THEN conjunct2, THEN conjunct1, THEN mp, OF e2]
  have c2: "final_status (GetBlobHandler ?n [] new_ResponseWriter ?r1) = 404" .
  from e3 e4 have e34: "Body ?r1 = Some \<lparr> data = [1, 2], read_err = None \<rparr> \<and>
      read_err \<lparr> data = [1, 2], read_err = None \<rparr> = None \<and>
      fst (store_WriteHash (store ?n) [] (URLParam_hash ?r1)
        (data \<lparr> data = [1, 2], read_err = None \<rparr>)) = Some HashNotMatchContentErr"
    by simp
  from t1 [THEN conjunct2, THEN conjunct2, THEN conjunct1, THEN mp, OF e34]
  have c3: "final_status (fst (PutBlobHandler ?n [] new_ResponseWriter ?r1)) = 403" .
  from t1 [THEN conjunct2, THEN conjunct2, THEN conjunct2, THEN conjunct1, THEN mp, OF e5,
      THEN conjunct1, THEN mp, OF e6]
  have c4: "final_status (GetQueryHandler count_json ?n new_ResponseWriter ?r1) = 404" .
  from e8 have e8': "index ?n ?q2 = Inl ErrIndexVersionsDoNotMatch \<and>
      ErrIndexVersionsDoNotMatch \<noteq> ErrNoQueryResults"
    by simp
  from t2 [THEN conjunct2, THEN conjunct2, THEN conjunct2, THEN conjunct1, THEN mp, OF e7,
      THEN conjunct2, THEN mp, OF e8']
  have c5: "final_status (GetQueryHandler count_json ?n new_ResponseWriter ?r2) = 500" .
  from t3 [THEN conjunct2, THEN conjunct2, THEN conjunct2, THEN conjunct2, THEN mp, OF e10]
  have c6: "final_status (GetQueryHandler count_json ?n new_ResponseWriter ?r3) = 500" .
  from c1 c2 c3 c4 c5 c6 show ?thesis by (intro conjI)
qed

section \<open>Properties of the query parser\<close>









section \<open>Properties of the Parts assembler\<close>

lemma wire_Hasher_eq [simp]: "wire_Hasher a = wire_Hasher b \<longleftrightarrow> a = b"
  by (auto simp: wire_Hasher_def dest: arg_cong [where f = length])

lemma wire_Hasher_nonempty [simp]: "wire_Hasher a \<noteq> []"
  by (simp add: wire_Hasher_def)

lemma hash_ok_wire: "hash_ok wire_env"
  by (simp add: hash_ok_def wire_env_def inj_def)

lemma parts_codec_wire: "parts_codec wire_env"
  by (simp add: parts_codec_def wire_env_def wire_Marshal_def wire_Unmarshal_Parts_def
      PartsSchema.truncate_def)

lemma block_codec_wire: "block_codec wire_env"
  by (auto simp: block_codec_def wire_env_def wire_Marshal_def wire_Unmarshal_Block_def)

lemma go_quot_pred: "go_quot (int n - 1) partSize = int ((n - 1) div 100)"
proof (cases n)
  case 0
  then show ?thesis by (simp add: go_quot_def partSize_def)
next
  case (Suc k)
  then show ?thesis
    by (cases "k = 0") (simp_all add: go_quot_def partSize_def zdiv_int sgn_if)
qed

lemma go_rem_nat: "go_rem (int n) partSize = int (n mod 100)"
proof -
  have "go_quot (int n) partSize = int (n div 100)"
    by (cases "n = 0") (simp_all add: go_quot_def partSize_def zdiv_int sgn_if)
  then have "go_rem (int n) partSize = int n - 100 * int (n div 100)"
    by (simp add: go_rem_def partSize_def)
  also have "\<dots> = int (n - 100 * (n div 100))"
    by simp
  also have "n - 100 * (n div 100) = n mod 100"
    by (rule minus_mult_div_eq_mod)
  finally show ?thesis .
qed

lemma wf_storeD: "wf_store env s \<Longrightarrow> (h, b) \<in> set s \<Longrightarrow> h = Hasher env b"
  unfolding wf_store_def by (drule (1) bspec) simp

lemma blobs_Read_mem:
  assumes "inj (Hasher env)" "wf_store env s" "(h, b) \<in> set s"
  shows "blobs_Read s h = Inr b"
proof -
  from assms(3) obtain b' where b': "map_of s h = Some b'"
    by (metis weak_map_of_SomeI)
  then have "(h, b') \<in> set s" by (rule map_of_SomeD)
  with assms(2,3) have "Hasher env b' = Hasher env b"
    by (simp add: wf_storeD [symmetric])
  with assms(1) have "b' = b" by (simp add: inj_eq)
  with b' show ?thesis by (simp add: blobs_Read_def)
qed

lemma blobs_Read_SomeD: "blobs_Read s h = Inr b \<Longrightarrow> (h, b) \<in> set s"
  by (auto simp: blobs_Read_def split: option.splits dest: map_of_SomeD)

lemma ReadAndUnmarshal_mono:
  assumes "inj (Hasher env)" "wf_store env s'" "set s \<subseteq> set s'"
    and "ReadAndUnmarshal u s h = Inr v"
  shows "ReadAndUnmarshal u s' h = Inr v"
proof -
  from assms(4) obtain b where b: "blobs_Read s h = Inr b" and u: "u b = Inr v"
    by (auto simp: ReadAndUnmarshal_def ReadAll_def split: sum.splits)
  from b have "(h, b) \<in> set s" by (rule blobs_Read_SomeD)
  with assms(3) have "(h, b) \<in> set s'" by blast
  from blobs_Read_mem [OF assms(1,2) this] u show ?thesis
    by (simp add: ReadAndUnmarshal_def ReadAll_def)
qed

lemma follow_parts_mono:
  assumes "inj (Hasher env)" "wf_store env s'" "set s \<subseteq> set s'"
  shows "follow_parts env s fuel r = Inr pages \<Longrightarrow> fuel \<le> fuel' \<Longrightarrow>
         follow_parts env s' fuel' r = Inr pages"
proof (induction fuel arbitrary: r pages fuel')
  case 0
  then show ?case by (cases r) simp_all
next
  case (Suc fuel)
  show ?case
  proof (cases r)
    case None
    with Suc.prems show ?thesis by simp
  next
    case (Some ref)
    from Suc.prems(2) obtain f where f: "fuel' = Suc f" "fuel \<le> f"
      by (cases fuel') auto
    from Suc.prems(1) Some obtain page rest where
      rd: "ReadAndUnmarshal (json_Unmarshal_Parts env) s ref = Inr page" and
      fl: "follow_parts env s fuel (MoreParts page) = Inr rest" and
      pg: "pages = Parts page # rest"
      by (auto split: sum.splits)
    have rd': "ReadAndUnmarshal (json_Unmarshal_Parts env) s' ref = Inr page"
      by (rule ReadAndUnmarshal_mono [OF assms rd])
    from Suc.IH [OF fl f(2)] rd' pg Some f(1) show ?thesis
      by simp
  qed
qed

lemma wf_store_Cons: "wf_store env s \<Longrightarrow> wf_store env ((Hasher env b, b) # s)"
  by (simp add: wf_store_def)

lemma slice_refs:
  "lo + len \<le> length refs \<Longrightarrow>
   slice (refs @ extra) (int lo) (int lo + int len) = Inr (take len (drop lo refs))"
  by (simp add: slice_def)

lemma part_bounds:
  assumes "Suc k \<le> (n - 1) div 100"
  shows "100 * Suc k + (if Suc k = (n - 1) div 100 then n mod 100 else 100) \<le> n"
proof (cases "Suc k = (n - 1) div 100")
  case True
  have "100 * ((n - 1) div 100) + n mod 100 \<le> n"
  proof (cases "n mod 100 = 0")
    case True
    have "100 * ((n - 1) div 100) \<le> n - 1" by simp
    with True show ?thesis by simp
  next
    case False
    then have "(n - 1) div 100 = n div 100"
      by (metis One_nat_def Suc_pred' bot_nat_0.not_eq_extremum div_Suc mod_0)
    then show ?thesis by simp
  qed
  with True show ?thesis by simp
next
  case False
  with assms have "Suc (Suc k) \<le> (n - 1) div 100" by simp
  then have "100 * Suc (Suc k) \<le> 100 * ((n - 1) div 100)" by simp
  also have "\<dots> \<le> n - 1" by simp
  finally show ?thesis using False by simp
qed

text \<open>The refs of page \<open>i\<close>, as the loop slices them.\<close>

lemma WriteData_loop_pages:
  assumes h: "hash_ok env" and c: "parts_codec env"
  shows "wf_store env w \<Longrightarrow> k \<le> (length refs - 1) div 100 \<Longrightarrow>
     (\<forall>fuel \<ge> f0. follow_parts env w fuel lastPart = Inr rest) \<Longrightarrow>
     \<exists>w' new lp.
       WriteData_loop env (int (length refs)) (int ((length refs - 1) div 100)) k w
           (refs @ extra) lastPart = Inr (w', refs @ extra @ new, lp) \<and>
       wf_store env w' \<and> set w \<subseteq> set w' \<and> length new = k \<and> length w' = length w + k \<and>
       (k = 0 \<longrightarrow> lp = lastPart) \<and> (0 < k \<longrightarrow> lp = Some (last new)) \<and>
       (\<forall>fuel \<ge> f0 + k. follow_parts env w' fuel lp =
          Inr (map (\<lambda>i. take (if i = (length refs - 1) div 100 then length refs mod 100 else 100)
                          (drop (100 * i) refs)) [1..<Suc k] @ rest))"
proof (induction k arbitrary: w extra lastPart f0 rest)
  case 0
  then show ?case by simp
next
  case (Suc k)
  let ?m = "(length refs - 1) div 100"
  let ?pg = "\<lambda>i. take (if i = ?m then length refs mod 100 else 100) (drop (100 * i) refs)"
  define len where "len = (if Suc k = ?m then length refs mod 100 else 100)"
  define ps where "ps = take len (drop (100 * Suc k) refs)"
  define part where "part = \<lparr> SchemaType = BlobTypeParts, Parts = ps, MoreParts = lastPart \<rparr>"
  have ps_pg: "ps = ?pg (Suc k)"
    by (simp add: ps_def len_def)
  from h have inj: "inj (Hasher env)" by (simp add: hash_ok_def)
  from c obtain b where b: "json_Marshal env (JParts part) = Inr b"
    and ub: "json_Unmarshal_Parts env b = Inr part"
    unfolding parts_codec_def by blast
  define ref where "ref = Hasher env b"
  define w1 where "w1 = (ref, b) # w"
  have wf1: "wf_store env w1"
    unfolding w1_def ref_def using Suc.prems(1) by (rule wf_store_Cons)
  have sub1: "set w \<subseteq> set w1" by (auto simp: w1_def)
  have bounds: "100 * Suc k + len \<le> length refs"
    unfolding len_def using part_bounds [OF Suc.prems(2)] .
  have sl: "slice (refs @ extra) (partSize * int (Suc k))
      (if int (Suc k) = int ?m then partSize * int (Suc k) + go_rem (int (length refs)) partSize
       else partSize * int (Suc k) + partSize) = Inr ps"
  proof -
    have e1: "partSize * int (Suc k) = int (100 * Suc k)"
      by (simp add: partSize_def)
    have e2: "(if int (Suc k) = int ?m
               then int (100 * Suc k) + go_rem (int (length refs)) partSize
               else int (100 * Suc k) + partSize) = int (100 * Suc k) + int len"
      unfolding go_rem_nat len_def by (simp add: partSize_def)
    show ?thesis
      unfolding e1 e2 ps_def using bounds by (rule slice_refs)
  qed
  have wr: "wutil_MarshalAndWrite env w (JParts part) = Inr (ref, w1)"
    by (simp add: wutil_MarshalAndWrite_def b blobs_Write_def Let_def ref_def w1_def)
  have rd: "ReadAndUnmarshal (json_Unmarshal_Parts env) w1 ref = Inr part"
    using blobs_Read_mem [OF inj wf1, of ref b] ub
    by (simp add: ReadAndUnmarshal_def ReadAll_def w1_def)
  have fl1: "\<forall>fuel \<ge> Suc f0. follow_parts env w1 fuel (Some ref) = Inr (ps # rest)"
  proof (intro allI impI)
    fix fuel assume "Suc f0 \<le> fuel"
    then obtain f where f: "fuel = Suc f" "f0 \<le> f" by (cases fuel) auto
    from Suc.prems(3) f(2) have "follow_parts env w f lastPart = Inr rest" by blast
    from follow_parts_mono [OF inj wf1 sub1 this order_refl]
    show "follow_parts env w1 fuel (Some ref) = Inr (ps # rest)"
      using rd f(1) by (simp add: part_def)
  qed
  from Suc.prems(2) have k: "k \<le> ?m" by simp
  from Suc.IH [OF wf1 k fl1, of "extra @ [ref]"]
  obtain w' new lp where
    loop: "WriteData_loop env (int (length refs)) (int ?m) k w1
           (refs @ (extra @ [ref])) (Some ref) = Inr (w', refs @ (extra @ [ref]) @ new, lp)"
    and wf': "wf_store env w'" and sub': "set w1 \<subseteq> set w'" and ln: "length new = k"
    and lw: "length w' = length w1 + k"
    and lp0: "k = 0 \<longrightarrow> lp = Some ref" and lpk: "0 < k \<longrightarrow> lp = Some (last new)"
    and fl': "\<forall>fuel \<ge> Suc f0 + k. follow_parts env w' fuel lp =
          Inr (map ?pg [1..<Suc k] @ ps # rest)"
    by blast
  have step: "WriteData_loop env (int (length refs)) (int ?m) (Suc k) w (refs @ extra) lastPart =
      Inr (w', refs @ extra @ (ref # new), lp)"
    unfolding WriteData_loop.simps Let_def sl sum.case part_def [symmetric] wr prod.case
    using loop by simp
  have pages: "map ?pg [1..<Suc k] @ ps # rest = map ?pg [1..<Suc (Suc k)] @ rest"
    unfolding ps_pg by simp
  show ?case
  proof (intro exI conjI)
    show "WriteData_loop env (int (length refs)) (int ?m) (Suc k) w (refs @ extra) lastPart =
      Inr (w', refs @ extra @ (ref # new), lp)" by (rule step)
    show "wf_store env w'" by (rule wf')
    show "set w \<subseteq> set w'" using sub' sub1 by blast
    show "length (ref # new) = Suc k" using ln by simp
    show "length w' = length w + Suc k" using lw by (simp add: w1_def)
    show "Suc k = 0 \<longrightarrow> lp = lastPart" by simp
    show "0 < Suc k \<longrightarrow> lp = Some (last (ref # new))"
      using lp0 lpk ln by (cases "k = 0") auto
    show "\<forall>fuel \<ge> f0 + Suc k. follow_parts env w' fuel lp = Inr (map ?pg [1..<Suc (Suc k)] @ rest)"
      using fl' unfolding pages by simp
  qed
qed

lemma follow_parts_None: "follow_parts env s fuel None = Inr []"
  by (cases fuel) simp_all

lemma WriteData_pages:
  assumes h: "hash_ok env" and c: "parts_codec env" and wf: "wf_store env w"
  shows "\<exists>new dref data w'.
     WriteData env w refs totalSize contentHash = Inr ((refs @ new @ [dref], data), w') \<and>
     length new = (length refs - 1) div 100 \<and>
     wf_store env w' \<and> set w \<subseteq> set w' \<and>
     length w' = length w + (length refs - 1) div 100 + 1 \<and>
     Parts data = take 100 refs \<and>
     MoreParts data = (if (length refs - 1) div 100 = 0 then None else Some (last new)) \<and>
     (\<forall>fuel \<ge> (length refs - 1) div 100 + 1.
        follow_parts env w' fuel (Some dref) =
          Inr (take 100 refs #
               map (\<lambda>i. take (if i = (length refs - 1) div 100 then length refs mod 100 else 100)
                          (drop (100 * i) refs)) [1..<Suc ((length refs - 1) div 100)]))"
proof -
  let ?m = "(length refs - 1) div 100"
  let ?pg = "\<lambda>i. take (if i = ?m then length refs mod 100 else 100) (drop (100 * i) refs)"
  from h have inj: "inj (Hasher env)" by (simp add: hash_ok_def)
  have f0: "\<forall>fuel \<ge> 0. follow_parts env w fuel None = Inr []"
    by (simp add: follow_parts_None)
  from WriteData_loop_pages [OF h c wf order_refl f0, of refs "[]"]
  obtain w1 new lp where
    loop: "WriteData_loop env (int (length refs)) (int ?m) ?m w refs None = Inr (w1, refs @ new, lp)"
    and wf1: "wf_store env w1" and sub1: "set w \<subseteq> set w1" and ln: "length new = ?m"
    and lw: "length w1 = length w + ?m"
    and lp0: "?m = 0 \<longrightarrow> lp = None" and lpk: "0 < ?m \<longrightarrow> lp = Some (last new)"
    and fl1: "\<forall>fuel \<ge> ?m. follow_parts env w1 fuel lp = Inr (map ?pg [1..<Suc ?m])"
    by auto
  define ps where "ps = take 100 refs"
  define data where "data = \<lparr> SchemaType = BlobTypeData, Parts = ps, MoreParts = lp,
      Size = totalSize, Checksum = contentHash \<rparr>"
  have sl: "slice (refs @ new) 0
      (if int (length refs) < partSize then int (length refs) else partSize) = Inr ps"
  proof -
    have "slice (refs @ new) (int 0) (int 0 + int (min (length refs) 100)) =
        Inr (take (min (length refs) 100) (drop 0 refs))"
      by (rule slice_refs) simp
    moreover have "(if int (length refs) < partSize then int (length refs) else partSize) =
        int 0 + int (min (length refs) 100)"
      by (simp add: partSize_def min_def)
    moreover have "take (min (length refs) 100) (drop 0 refs) = ps"
      by (simp add: ps_def min_def)
    ultimately show ?thesis by simp
  qed
  from c obtain b where b: "json_Marshal env (JData data) = Inr b"
    and ub: "json_Unmarshal_Parts env b = Inr (PartsSchema.truncate data)"
    unfolding parts_codec_def by blast
  define dref where "dref = Hasher env b"
  define w2 where "w2 = (dref, b) # w1"
  have wf2: "wf_store env w2"
    unfolding w2_def dref_def using wf1 by (rule wf_store_Cons)
  have sub2: "set w1 \<subseteq> set w2" by (auto simp: w2_def)
  have wr: "wutil_MarshalAndWrite env w1 (JData data) = Inr (dref, w2)"
    by (simp add: wutil_MarshalAndWrite_def b blobs_Write_def Let_def dref_def w2_def)
  have rd: "ReadAndUnmarshal (json_Unmarshal_Parts env) w2 dref = Inr (PartsSchema.truncate data)"
    using blobs_Read_mem [OF inj wf2, of dref b] ub
    by (simp add: ReadAndUnmarshal_def ReadAll_def w2_def)
  have tr: "Parts (PartsSchema.truncate data) = ps" "MoreParts (PartsSchema.truncate data) = lp"
    by (simp_all add: PartsSchema.truncate_def data_def)
  have fl2: "\<forall>fuel \<ge> ?m + 1. follow_parts env w2 fuel (Some dref) = Inr (ps # map ?pg [1..<Suc ?m])"
  proof (intro allI impI)
    fix fuel assume "?m + 1 \<le> fuel"
    then obtain f where f: "fuel = Suc f" "?m \<le> f" by (cases fuel) auto
    from fl1 f(2) have "follow_parts env w1 f lp = Inr (map ?pg [1..<Suc ?m])" by blast
    from follow_parts_mono [OF inj wf2 sub2 this order_refl]
    show "follow_parts env w2 fuel (Some dref) = Inr (ps # map ?pg [1..<Suc ?m])"
      using rd tr f(1) by simp
  qed
  have res: "WriteData env w refs totalSize contentHash = Inr ((refs @ new @ [dref], data), w2)"
    unfolding WriteData_def Let_def go_quot_pred nat_int loop sum.case prod.case sl
      data_def [symmetric] wr
    by simp
  show ?thesis
  proof (intro exI conjI)
    show "WriteData env w refs totalSize contentHash = Inr ((refs @ new @ [dref], data), w2)"
      by (rule res)
    show "length new = ?m" by (rule ln)
    show "wf_store env w2" by (rule wf2)
    show "set w \<subseteq> set w2" using sub1 sub2 by blast
    show "length w2 = length w + ?m + 1" using lw by (simp add: w2_def)
    show "Parts data = take 100 refs" by (simp add: data_def ps_def)
    show "MoreParts data = (if ?m = 0 then None else Some (last new))"
      using lp0 lpk by (simp add: data_def)
    show "\<forall>fuel \<ge> ?m + 1. follow_parts env w2 fuel (Some dref) =
        Inr (take 100 refs # map ?pg [1..<Suc ?m])"
      using fl2 by (simp add: ps_def)
  qed
qed





text \<open>
  The case the amended claims leave out: when the number of refs is a multiple of 100
  and more than 100, the final page is sliced with \<^verbatim>\<open>chunkRefLen % partSize\<close> = 0 refs.
  For 200 refs the tree holds the first hundred and an empty page.
\<close>

lemma WriteData_200_final_page_empty:
  "\<exists>new dref data w'.
     WriteData wire_env [] (replicate 200 ''a'') 0 [] =
       Inr ((replicate 200 ''a'' @ new @ [dref], data), w') \<and>
     follow_parts wire_env w' 2 (Some dref) = Inr [replicate 100 ''a'', []]"
proof -
  have wf: "wf_store wire_env []" by (simp add: wf_store_def)
  from WriteData_pages [OF hash_ok_wire parts_codec_wire wf, of "replicate 200 ''a''" 0 "[]"]
  obtain new dref data w' where
    w: "WriteData wire_env [] (replicate 200 ''a'') 0 [] =
       Inr ((replicate 200 ''a'' @ new @ [dref], data), w')" and
    f: "\<forall>fuel \<ge> (length (replicate 200 ''a'') - 1) div 100 + 1.
        follow_parts wire_env w' fuel (Some dref) =
          Inr (take 100 (replicate 200 ''a'') #
               map (\<lambda>i. take (if i = (length (replicate 200 ''a'') - 1) div 100
                                then length (replicate 200 ''a'') mod 100 else 100)
                          (drop (100 * i) (replicate 200 ''a'')))
                 [1..<Suc ((length (replicate 200 ''a'') - 1) div 100)])"
    by blast
  have "(length (replicate 200 ''a'') - 1) div 100 + 1 \<le> (2::nat)" by simp
  with f have "follow_parts wire_env w' 2 (Some dref) =
          Inr (take 100 (replicate 200 ''a'') #
               map (\<lambda>i. take (if i = (length (replicate 200 ''a'') - 1) div 100
                                then length (replicate 200 ''a'') mod 100 else 100)
                          (drop (100 * i) (replicate 200 ''a'')))
                 [1..<Suc ((length (replicate 200 ''a'') - 1) div 100)])"
    by blast
  also have "\<dots> = Inr [replicate 100 ''a'', []]"
    by simp
  finally show ?thesis using w by blast
qed









section \<open>Properties of versions and the block chain\<close>

lemma ReadAndUnmarshal_error:
  "ReadAndUnmarshal u s h = Inl e \<Longrightarrow> \<exists>e'. e = Stack e'"
  by (auto simp: ReadAndUnmarshal_def ReadAll_def split: sum.splits)

lemma ReadAndUnmarshal_Inr:
  "ReadAndUnmarshal u s h = Inr v \<longleftrightarrow> (\<exists>x. blobs_Read s h = Inr x \<and> u x = Inr v)"
  by (auto simp: ReadAndUnmarshal_def ReadAll_def split: sum.splits)

text \<open>
  C8. \<open>Previous\<close> of a content fails with \<open>ErrNoPrev\<close> exactly when its previous content
  hash is empty, and \<open>Previous\<close> of a block exactly when its previous block hash is empty
  (the genesis block). Every other failure is a store that is not set or a stacked
  error of the read or the decoding, so \<open>ErrNoPrev\<close> is none of them. On success the
  record returned is the one decoded from what the store holds under the followed
  hash, with its hash and store filled in (and, for a content with a known index, the
  index after it).
\<close>

theorem Previous_no_prev:
  "(Content_Previous env c = Inl ErrNoPrev \<longleftrightarrow> PreviousContentHash c = []) \<and>
   (Block_Previous env b = Inl ErrNoPrev \<longleftrightarrow> PreviousBlockHash b = []) \<and>
   (PreviousContentHash c \<noteq> [] \<and> Content_Previous env c = Inl e \<longrightarrow>
      e = ErrorsNew ''content: Store not set'' \<or> (\<exists>e'. e = Stack e')) \<and>
   (PreviousBlockHash b \<noteq> [] \<and> Block_Previous env b = Inl e \<longrightarrow>
      e = ErrorsNew ''block: Store not set'' \<or> (\<exists>e'. e = Stack e')) \<and>
   (Content_Previous env c = Inr pc \<longrightarrow>
      (\<exists>s x pc0. Content.Store c = Some s \<and>
          blobs_Read s (PreviousContentHash c) = Inr x \<and>
          json_Unmarshal_Content env x = Inr pc0 \<and>
          pc = pc0\<lparr> Content.Hash := PreviousContentHash c, Content.Store := Some s,
                     Index := (if Index c \<noteq> 0 then wrap64 (Index c + 1) else Index pc0) \<rparr>)) \<and>
   (Block_Previous env b = Inr pb \<longrightarrow>
      (\<exists>s x pb0. Block.Store b = Some s \<and>
          blobs_Read s (PreviousBlockHash b) = Inr x \<and>
          json_Unmarshal_Block env x = Inr pb0 \<and>
          pb = pb0\<lparr> Block.Hash := PreviousBlockHash b, Block.Store := Some s \<rparr>))"
proof (intro conjI impI)
  show "Content_Previous env c = Inl ErrNoPrev \<longleftrightarrow> PreviousContentHash c = []"
    by (auto simp: Content_Previous_def Let_def split: option.splits sum.splits
        dest: ReadAndUnmarshal_error)
next
  show "Block_Previous env b = Inl ErrNoPrev \<longleftrightarrow> PreviousBlockHash b = []"
    by (auto simp: Block_Previous_def split: option.splits sum.splits
        dest: ReadAndUnmarshal_error)
next
  assume "PreviousContentHash c \<noteq> [] \<and> Content_Previous env c = Inl e"
  then show "e = ErrorsNew ''content: Store not set'' \<or> (\<exists>e'. e = Stack e')"
    by (auto simp: Content_Previous_def Let_def split: option.splits sum.splits if_splits
        dest!: ReadAndUnmarshal_error)
next
  assume "PreviousBlockHash b \<noteq> [] \<and> Block_Previous env b = Inl e"
  then show "e = ErrorsNew ''block: Store not set'' \<or> (\<exists>e'. e = Stack e')"
    by (auto simp: Block_Previous_def split: option.splits sum.splits if_splits
        dest!: ReadAndUnmarshal_error)
next
  assume "Content_Previous env c = Inr pc"
  then show "\<exists>s x pc0. Content.Store c = Some s \<and>
          blobs_Read s (PreviousContentHash c) = Inr x \<and>
          json_Unmarshal_Content env x = Inr pc0 \<and>
          pc = pc0\<lparr> Content.Hash := PreviousContentHash c, Content.Store := Some s,
                     Index := (if Index c \<noteq> 0 then wrap64 (Index c + 1) else Index pc0) \<rparr>"
    by (auto simp: Content_Previous_def Let_def ReadAndUnmarshal_Inr
        split: option.splits sum.splits if_splits)
next
  assume "Block_Previous env b = Inr pb"
  then show "\<exists>s x pb0. Block.Store b = Some s \<and>
          blobs_Read s (PreviousBlockHash b) = Inr x \<and>
          json_Unmarshal_Block env x = Inr pb0 \<and>
          pb = pb0\<lparr> Block.Hash := PreviousBlockHash b, Block.Store := Some s \<rparr>"
    by (auto simp: Block_Previous_def ReadAndUnmarshal_Inr split: option.splits sum.splits if_splits)
qed

lemma MarshalAndWrite_Inr:
  "MarshalAndWrite env (Some s) (Some v) = Inr (h, s') \<longleftrightarrow>
     (\<exists>x. json_Marshal env v = Inr x \<and> h = Hasher env x \<and> s' = (h, x) # s)"
  by (auto simp: MarshalAndWrite_def blobs_Write_def Let_def split: sum.splits)

lemma MarshalAndWrite_store:
  assumes "MarshalAndWrite env (Some s) (Some v) = Inr (h, s')" and "wf_store env s"
  shows "wf_store env s' \<and> set s \<subseteq> set s'"
  using assms by (auto simp: MarshalAndWrite_Inr wf_store_def)

lemma WriteRoller_loop_store:
  "WriteRoller_loop env s cs fin tot hs = Inr (res, s') \<Longrightarrow> wf_store env s \<Longrightarrow>
   wf_store env s' \<and> set s \<subseteq> set s'"
proof (induction cs arbitrary: s tot hs)
  case Nil
  then show ?case by (cases fin) (auto split: if_splits)
next
  case (Cons c cs)
  from Cons.prems(1) obtain h s1 where
    w: "MarshalAndWrite env (Some s) (Some (JChunk c)) = Inr (h, s1)" and
    l: "WriteRoller_loop env s1 cs fin (wrap64 (tot + Chunk.Size c)) (hs @ [h]) = Inr (res, s')"
    by (auto simp: Let_def split: sum.splits)
  from MarshalAndWrite_store [OF w Cons.prems(2)]
  have s1: "wf_store env s1" "set s \<subseteq> set s1" by simp_all
  from Cons.IH [OF l s1(1)] s1(2) show ?case by blast
qed

lemma chain_mono: "chain env s h k \<Longrightarrow> set s \<subseteq> set s' \<Longrightarrow> chain env s' h k"
proof (induction k arbitrary: h)
  case 0
  then show ?case by simp
next
  case (Suc k)
  from Suc.prems(1) obtain x blk where
    "h \<noteq> []" "(h, x) \<in> set s" "json_Unmarshal_Block env x = Inr blk"
    "Block blk = int (Suc k)" "chain env s (PreviousBlockHash blk) k"
    by auto
  with Suc.IH [OF _ Suc.prems(2)] Suc.prems(2) show ?case
    by (simp del: of_nat_Suc) blast
qed

lemma chain_empty_ref: "chain env s [] k \<Longrightarrow> k = 0"
  by (cases k) simp_all

lemma chain_read:
  assumes "hash_ok env" and "wf_store env s" and "chain env s h (Suc k)"
  shows "\<exists>blk. ReadAndUnmarshal (json_Unmarshal_Block env) s h = Inr blk \<and>
           Block blk = int (Suc k) \<and> chain env s (PreviousBlockHash blk) k"
proof -
  from assms(1) have inj: "inj (Hasher env)" by (simp add: hash_ok_def)
  from assms(3) obtain x blk where
    x: "(h, x) \<in> set s" and u: "json_Unmarshal_Block env x = Inr blk" and
    n: "Block blk = int (Suc k)" and c: "chain env s (PreviousBlockHash blk) k"
    by auto
  from blobs_Read_mem [OF inj assms(2) x] u
  have "ReadAndUnmarshal (json_Unmarshal_Block env) s h = Inr blk"
    by (simp add: ReadAndUnmarshal_Inr)
  with n c show ?thesis by blast
qed

lemma getHead_eq: "getHead l = Inr (head_ref l)"
  by (simp add: getHead_def head_ref_def)

lemma wrap64_id: "- (2 ^ 63) \<le> x \<Longrightarrow> x < 2 ^ 63 \<Longrightarrow> wrap64 x = x"
  by (simp add: wrap64_def)

lemma Local_Write_Inr:
  assumes "Local_Write env l id' r f = Inr (hs, l')"
  shows "\<exists>roller cHashes totalSize s1 blob blobHash s2 content cHash s3 lastBlock bHash s4.
    WriteRoller env (Local_store l) roller = Inr ((cHashes, totalSize), s1) \<and>
    MarshalAndWrite env (Some s1) (Some (JBlob blob)) = Inr (blobHash, s2) \<and>
    MarshalAndWrite env (Some s2) (Some (JContent content)) = Inr (cHash, s3) \<and>
    (if head_ref l \<noteq> []
     then (case ReadAndUnmarshal (json_Unmarshal_Block env) s3 (head_ref l) of
             Inl err \<Rightarrow> Inl err
           | Inr prevBlock \<Rightarrow> Inr (Block prevBlock))
     else Inr 0) = Inr lastBlock \<and>
    MarshalAndWrite env (Some s3)
      (Some (JBlock \<lparr> Block = wrap64 (lastBlock + 1), PreviousBlockHash = head_ref l,
                       ContentHash = cHash, Hash = [], Store = None \<rparr>)) = Inr (bHash, s4) \<and>
    hs = cHashes @ [blobHash, cHash, bHash] \<and>
    l' = l\<lparr> Local_store := s4, Local_db := Some bHash \<rparr>"
proof -
  define F where "F = (\<lambda>s3. if head_ref l \<noteq> []
     then (case ReadAndUnmarshal (json_Unmarshal_Block env) s3 (head_ref l) of
             Inl err \<Rightarrow> Inl err
           | Inr prevBlock \<Rightarrow> Inr (Block prevBlock))
     else Inr 0)"
  have eq: "Local_Write env l id' r f =
     (case r of
        None \<Rightarrow> Inl (ErrorsNew ''no data given to write'')
      | Some r' \<Rightarrow>
     (case camli_New env r' (camli_DefaultMinRollSize env) of
        Inl err \<Rightarrow> Inl err
      | Inr roller \<Rightarrow>
     (case WriteRoller env (Local_store l) roller of
        Inl err \<Rightarrow> Inl err
      | Inr ((cHashes, totalSize), s1) \<Rightarrow>
     (case MarshalAndWrite env (Some s1)
             (Some (JBlob \<lparr> ChunkHashes = cHashes, Size = totalSize,
                                RollSize = camli_DefaultMinRollSize env \<rparr>)) of
        Inl err \<Rightarrow> Inl err
      | Inr (blobHash, s2) \<Rightarrow>
     (case MarshalAndWrite env (Some s2)
             (Some (JContent \<lparr> Id = id', PreviousContentHash = [], BlobHash = blobHash,
                      IndexedFields = f, Hash = [], Index = 0, Store = None \<rparr>)) of
        Inl err \<Rightarrow> Inl err
      | Inr (cHash, s3) \<Rightarrow>
     (case F s3 of
        Inl err \<Rightarrow> Inl err
      | Inr lastBlock \<Rightarrow>
     (case MarshalAndWrite env (Some s3)
             (Some (JBlock \<lparr> Block = wrap64 (lastBlock + 1), PreviousBlockHash = head_ref l,
                    ContentHash = cHash, Hash = [], Store = None \<rparr>)) of
        Inl err \<Rightarrow> Inl err
      | Inr (bHash, s4) \<Rightarrow>
          Inr (cHashes @ [blobHash, cHash, bHash],
               l\<lparr> Local_store := s4, Local_db := Some bHash \<rparr>))))))))"
    unfolding Local_Write_def Let_def getHead_eq setHead_def F_def
    by (simp split: option.splits sum.splits prod.splits)
  from assms have "\<exists>roller cHashes totalSize s1 blob blobHash s2 content cHash s3 lastBlock bHash s4.
    WriteRoller env (Local_store l) roller = Inr ((cHashes, totalSize), s1) \<and>
    MarshalAndWrite env (Some s1) (Some (JBlob blob)) = Inr (blobHash, s2) \<and>
    MarshalAndWrite env (Some s2) (Some (JContent content)) = Inr (cHash, s3) \<and>
    F s3 = Inr lastBlock \<and>
    MarshalAndWrite env (Some s3)
      (Some (JBlock \<lparr> Block = wrap64 (lastBlock + 1), PreviousBlockHash = head_ref l,
                       ContentHash = cHash, Hash = [], Store = None \<rparr>)) = Inr (bHash, s4) \<and>
    hs = cHashes @ [blobHash, cHash, bHash] \<and>
    l' = l\<lparr> Local_store := s4, Local_db := Some bHash \<rparr>"
    unfolding eq
    by (simp split: option.splits sum.splits prod.splits) blast
  then show ?thesis
    unfolding F_def .
qed

lemma Local_Write_chain:
  assumes h: "hash_ok env" and c: "block_codec env"
    and wf: "wf_store env (Local_store l)"
    and ch: "chain env (Local_store l) (head_ref l) k"
    and bound: "int k + 1 < 2 ^ 63"
    and w: "Local_Write env l id' r f = Inr (hs, l')"
  shows "wf_store env (Local_store l') \<and> chain env (Local_store l') (head_ref l') (Suc k)"
proof -
  from Local_Write_Inr [OF w]
  obtain roller cHashes totalSize s1 blobHash s2 cHash s3 lastBlock bHash s4 blob content
    where
    wr: "WriteRoller env (Local_store l) roller = Inr ((cHashes, totalSize), s1)" and
    w2: "MarshalAndWrite env (Some s1) (Some (JBlob blob)) = Inr (blobHash, s2)" and
    w3: "MarshalAndWrite env (Some s2) (Some (JContent content)) = Inr (cHash, s3)" and
    lb: "(if head_ref l \<noteq> []
          then (case ReadAndUnmarshal (json_Unmarshal_Block env) s3 (head_ref l) of
                  Inl err \<Rightarrow> Inl err
                | Inr prevBlock \<Rightarrow> Inr (Block prevBlock))
          else Inr 0) = Inr lastBlock" and
    w4: "MarshalAndWrite env (Some s3)
          (Some (JBlock \<lparr> Block = wrap64 (lastBlock + 1), PreviousBlockHash = head_ref l,
                           ContentHash = cHash, Hash = [], Store = None \<rparr>)) = Inr (bHash, s4)" and
    l': "l' = l\<lparr> Local_store := s4, Local_db := Some bHash \<rparr>"
    by blast
  let ?block = "\<lparr> Block = wrap64 (lastBlock + 1), PreviousBlockHash = head_ref l,
                   ContentHash = cHash, Hash = [], Store = None \<rparr> :: 'a Block"
  from wr wf have s1: "wf_store env s1" "set (Local_store l) \<subseteq> set s1"
    using WriteRoller_loop_store unfolding WriteRoller_def by blast+
  from MarshalAndWrite_store [OF w2 s1(1)] have s2: "wf_store env s2" "set s1 \<subseteq> set s2"
    by simp_all
  from MarshalAndWrite_store [OF w3 s2(1)] have s3: "wf_store env s3" "set s2 \<subseteq> set s3"
    by simp_all
  from MarshalAndWrite_store [OF w4 s3(1)] have s4: "wf_store env s4" "set s3 \<subseteq> set s4"
    by simp_all
  from s1(2) s2(2) s3(2) have sub3: "set (Local_store l) \<subseteq> set s3" by blast
  with s4(2) have sub4: "set (Local_store l) \<subseteq> set s4" by blast
  have ch3: "chain env s3 (head_ref l) k" using ch sub3 by (rule chain_mono)
  have last: "lastBlock = int k"
  proof (cases "head_ref l = []")
    case True
    with ch have "k = 0" by (simp add: chain_empty_ref)
    with lb True show ?thesis by simp
  next
    case False
    with ch3 obtain k' where k': "k = Suc k'" by (cases k) auto
    from chain_read [OF h s3(1) ch3 [unfolded k']] obtain blk where
      "ReadAndUnmarshal (json_Unmarshal_Block env) s3 (head_ref l) = Inr blk"
      "Block blk = int (Suc k')"
      by blast
    with lb False k' show ?thesis by simp
  qed
  have num: "wrap64 (lastBlock + 1) = int (Suc k)"
    using bound unfolding last by (simp add: wrap64_id)
  from w4 obtain x where x: "json_Marshal env (JBlock ?block) = Inr x"
    and bh: "bHash = Hasher env x" and s4eq: "s4 = (bHash, x) # s3"
    unfolding MarshalAndWrite_Inr by blast
  from c x have u: "json_Unmarshal_Block env x = Inr ?block"
    unfolding block_codec_def by fastforce
  from h bh have ne: "bHash \<noteq> []" by (simp add: hash_ok_def)
  have ch4: "chain env s4 (head_ref l) k" using ch sub4 by (rule chain_mono)
  have "chain env s4 bHash (Suc k)"
    unfolding chain.simps
    using ne u num ch4 s4eq by (intro conjI exI [of _ x] exI [of _ ?block]) simp_all
  with s4(1) l' show ?thesis
    by (simp add: head_ref_def)
qed

lemma appends_chain:
  assumes h: "hash_ok env" and c: "block_codec env"
  shows "wf_store env (Local_store l) \<Longrightarrow> chain env (Local_store l) (head_ref l) k \<Longrightarrow>
     int k + int (length ws) < 2 ^ 63 \<Longrightarrow> appends env l ws = Inr l' \<Longrightarrow>
     wf_store env (Local_store l') \<and> chain env (Local_store l') (head_ref l') (k + length ws)"
proof (induction ws arbitrary: l k)
  case Nil
  then show ?case by simp
next
  case (Cons a ws)
  obtain id' r f where a: "a = (id', r, f)" by (cases a)
  from Cons.prems(4) a obtain hs l1 where
    w: "Local_Write env l id' r f = Inr (hs, l1)" and rest: "appends env l1 ws = Inr l'"
    by (auto split: sum.splits)
  from Cons.prems(3) have b1: "int k + 1 < 2 ^ 63" by simp
  from Local_Write_chain [OF h c Cons.prems(1,2) b1 w]
  have inv1: "wf_store env (Local_store l1)" "chain env (Local_store l1) (head_ref l1) (Suc k)"
    by simp_all
  from Cons.prems(3) have b2: "int (Suc k) + int (length ws) < 2 ^ 63" by simp
  from Cons.IH [OF inv1 b2 rest] show ?case by simp
qed

lemma walk_back_chain:
  assumes h: "hash_ok env"
  shows "wf_store env s \<Longrightarrow> Block.Store b = Some s \<Longrightarrow> Block b = int (Suc k) \<Longrightarrow>
     chain env s (PreviousBlockHash b) k \<Longrightarrow>
     \<exists>bs. walk_back env (Suc k) b = (bs, Some ErrNoPrev) \<and>
          map Block bs = map int (rev [1..<Suc (Suc k)]) \<and>
          (\<forall>i < Suc k. (PreviousBlockHash (bs ! i) = []) = (i = k))"
proof (induction k arbitrary: b)
  case 0
  then have "PreviousBlockHash b = []" by simp
  then have "walk_back env (Suc 0) b = ([b], Some ErrNoPrev)"
    by (simp add: Block_Previous_def)
  with 0 show ?case by simp
next
  case (Suc k)
  from Suc.prems(4) have ne: "PreviousBlockHash b \<noteq> []" by auto
  from chain_read [OF h Suc.prems(1,4)] obtain blk where
    rd: "ReadAndUnmarshal (json_Unmarshal_Block env) s (PreviousBlockHash b) = Inr blk" and
    n: "Block blk = int (Suc k)" and ch: "chain env s (PreviousBlockHash blk) k"
    by blast
  define pb where "pb = blk\<lparr> Block.Hash := PreviousBlockHash b, Block.Store := Block.Store b \<rparr>"
  have prev: "Block_Previous env b = Inr pb"
    using ne rd Suc.prems(2) by (simp add: Block_Previous_def pb_def)
  have pbs: "Block.Store pb = Some s" "Block pb = int (Suc k)"
    "chain env s (PreviousBlockHash pb) k"
    using Suc.prems(2) n ch by (simp_all add: pb_def)
  from Suc.IH [OF Suc.prems(1) pbs] obtain bs where
    wb: "walk_back env (Suc k) pb = (bs, Some ErrNoPrev)" and
    nums: "map Block bs = map int (rev [1..<Suc (Suc k)])" and
    gen: "\<forall>i < Suc k. (PreviousBlockHash (bs ! i) = []) = (i = k)"
    by blast
  have step: "walk_back env (Suc (Suc k)) b = (b # bs, Some ErrNoPrev)"
    using prev wb by (simp del: walk_back.simps add: walk_back.simps(2) [of env "Suc k" b])
  have nums': "map Block (b # bs) = map int (rev [1..<Suc (Suc (Suc k))])"
    using nums Suc.prems(3) by simp
  have gen': "\<forall>i < Suc (Suc k). (PreviousBlockHash ((b # bs) ! i) = []) = (i = Suc k)"
  proof (intro allI impI)
    fix i assume i: "i < Suc (Suc k)"
    show "(PreviousBlockHash ((b # bs) ! i) = []) = (i = Suc k)"
    proof (cases i)
      case 0
      with ne show ?thesis by simp
    next
      case (Suc j)
      with i gen show ?thesis by simp
    qed
  qed
  from step nums' gen' show ?case by blast
qed

text \<open>
  C4. After \<open>K\<close> appends from the empty store that all succeed (with \<open>K\<close> in the range
  of the block number), the head pointer names a stored block, and walking back from
  it with \<open>Previous\<close> visits \<open>K\<close> blocks and ends, at the \<open>K\<close>-th call, with \<open>ErrNoPrev\<close>:
  genesis is reached. The blocks visited carry the numbers \<open>K\<close> down to 1, each one more
  than that of the block after it, and the previous block hash is empty at the last
  block visited (the genesis block) and at no other. With no append the head pointer
  is empty.
\<close>

theorem chain_integrity:
  assumes "hash_ok env" and "block_codec env"
    and "appends env new_Local ws = Inr l" and "K = length ws" and "int K < 2 ^ 63"
  shows "(K = 0 \<longrightarrow> getHead l = Inr []) \<and>
     (0 < K \<longrightarrow>
       (\<exists>h blk bs.
          getHead l = Inr h \<and> h \<noteq> [] \<and>
          ReadAndUnmarshal (json_Unmarshal_Block env) (Local_store l) h = Inr blk \<and>
          walk_back env K (blk\<lparr> Block.Hash := h, Block.Store := Some (Local_store l) \<rparr>) =
            (bs, Some ErrNoPrev) \<and>
          length bs = K \<and>
          map Block bs = map int (rev [1..<Suc K]) \<and>
          (\<forall>i < K. (PreviousBlockHash (bs ! i) = []) = (i = K - 1)) \<and>
          (\<forall>i. Suc i < K \<longrightarrow> Block (bs ! i) = Block (bs ! Suc i) + 1)))"
proof (intro conjI impI)
  assume "K = 0"
  with assms(3,4) have "l = new_Local" by simp
  then show "getHead l = Inr []"
    by (simp add: new_Local_def getHead_def)
next
  assume pos: "0 < K"
  have wf0: "wf_store env (Local_store (new_Local :: 'a Local))"
    by (simp add: new_Local_def wf_store_def)
  have ch0: "chain env (Local_store (new_Local :: 'a Local)) (head_ref (new_Local :: 'a Local)) 0"
    by (simp add: new_Local_def head_ref_def)
  from assms(4,5) have b: "int 0 + int (length ws) < 2 ^ 63" by simp
  from appends_chain [OF assms(1,2) wf0 ch0 b assms(3)] assms(4)
  have wf: "wf_store env (Local_store l)" and ch: "chain env (Local_store l) (head_ref l) K"
    by simp_all
  from pos obtain k where k: "K = Suc k" by (cases K) auto
  from ch k have ne: "head_ref l \<noteq> []" by auto
  from chain_read [OF assms(1) wf ch [unfolded k]] obtain blk where
    rd: "ReadAndUnmarshal (json_Unmarshal_Block env) (Local_store l) (head_ref l) = Inr blk" and
    n: "Block blk = int (Suc k)" and chp: "chain env (Local_store l) (PreviousBlockHash blk) k"
    by blast
  define b0 where "b0 = blk\<lparr> Block.Hash := head_ref l, Block.Store := Some (Local_store l) \<rparr>"
  have b0s: "Block.Store b0 = Some (Local_store l)" "Block b0 = int (Suc k)"
    "chain env (Local_store l) (PreviousBlockHash b0) k"
    using n chp by (simp_all add: b0_def)
  from walk_back_chain [OF assms(1) wf b0s] obtain bs where
    wb: "walk_back env (Suc k) b0 = (bs, Some ErrNoPrev)" and
    nums: "map Block bs = map int (rev [1..<Suc (Suc k)])" and
    gen: "\<forall>i < Suc k. (PreviousBlockHash (bs ! i) = []) = (i = k)"
    by blast
  from nums have len: "length bs = Suc k"
    by (metis length_map length_rev length_upt diff_Suc_1)
  have succ: "\<forall>i. Suc i < Suc k \<longrightarrow> Block (bs ! i) = Block (bs ! Suc i) + 1"
  proof (intro allI impI)
    fix i assume i: "Suc i < Suc k"
    have nth: "\<And>j. j < Suc k \<Longrightarrow> Block (bs ! j) = int (Suc k - j)"
    proof -
      fix j assume j: "j < Suc k"
      with len have "Block (bs ! j) = map Block bs ! j" by simp
      also have "\<dots> = int (rev [1..<Suc (Suc k)] ! j)"
        unfolding nums using j by (simp del: upt_Suc)
      also have "rev [1..<Suc (Suc k)] ! j = Suc k - j"
        using j by (simp add: rev_nth del: upt_Suc)
      finally show "Block (bs ! j) = int (Suc k - j)" .
    qed
    from i have "Block (bs ! i) = int (Suc k - i)" "Block (bs ! Suc i) = int (Suc k - Suc i)"
      using nth by simp_all
    with i show "Block (bs ! i) = Block (bs ! Suc i) + 1" by simp
  qed
  show "\<exists>h blk bs.
          getHead l = Inr h \<and> h \<noteq> [] \<and>
          ReadAndUnmarshal (json_Unmarshal_Block env) (Local_store l) h = Inr blk \<and>
          walk_back env K (blk\<lparr> Block.Hash := h, Block.Store := Some (Local_store l) \<rparr>) =
            (bs, Some ErrNoPrev) \<and>
          length bs = K \<and>
          map Block bs = map int (rev [1..<Suc K]) \<and>
          (\<forall>i < K. (PreviousBlockHash (bs ! i) = []) = (i = K - 1)) \<and>
          (\<forall>i. Suc i < K \<longrightarrow> Block (bs ! i) = Block (bs ! Suc i) + 1)"
    using getHead_eq [of l] ne rd wb [unfolded b0_def] len nums gen succ unfolding k
    by (intro exI [of _ "head_ref l"] exI [of _ blk] exI [of _ bs]) simp
qed

lemma two_appends:
  "\<exists>l. appends wire_env new_Local
     [(''doc1'', Some \<lparr> data = [1], read_err = None \<rparr>, []),
      (''doc2'', Some \<lparr> data = [2], read_err = None \<rparr>, [(''field'', ''foo'')])] = Inr l"
  by (simp add: new_Local_def Local_Write_def wire_env_def one_chunk_def WriteRoller_def
      MarshalAndWrite_def blobs_Write_def wire_Marshal_def getHead_def setHead_def
      ReadAndUnmarshal_def ReadAll_def blobs_Read_def wire_Unmarshal_Block_def Let_def)

theorem chain_integrity_witness:
  "\<exists>h blk bs.
     getHead (projr (appends wire_env new_Local
       [(''doc1'', Some \<lparr> data = [1], read_err = None \<rparr>, []),
        (''doc2'', Some \<lparr> data = [2], read_err = None \<rparr>, [(''field'', ''foo'')])])) = Inr h \<and>
     h \<noteq> [] \<and>
     ReadAndUnmarshal (json_Unmarshal_Block wire_env)
       (Local_store (projr (appends wire_env new_Local
         [(''doc1'', Some \<lparr> data = [1], read_err = None \<rparr>, []),
          (''doc2'', Some \<lparr> data = [2], read_err = None \<rparr>, [(''field'', ''foo'')])]))) h = Inr blk \<and>
     walk_back wire_env 2
       (blk\<lparr> Block.Hash := h,
             Block.Store := Some (Local_store (projr (appends wire_env new_Local
               [(''doc1'', Some \<lparr> data = [1], read_err = None \<rparr>, []),
                (''doc2'', Some \<lparr> data = [2], read_err = None \<rparr>, [(''field'', ''foo'')])]))) \<rparr>) =
       (bs, Some ErrNoPrev) \<and>
     length bs = 2 \<and> map Block bs = [2, 1]"
proof -
  let ?ws = "[(''doc1'', Some \<lparr> data = [1], read_err = None \<rparr>, []),
      (''doc2'', Some \<lparr> data = [2], read_err = None \<rparr>, [(''field'', ''foo'')])]"
  from two_appends obtain l where l: "appends wire_env new_Local ?ws = Inr l" by blast
  then have run: "appends wire_env new_Local ?ws = Inr (projr (appends wire_env new_Local ?ws))"
    by simp
  have K: "(2::nat) = length ?ws" "int 2 < 2 ^ 63" by simp_all
  from chain_integrity [OF hash_ok_wire block_codec_wire run K]
  obtain h blk bs where
    "getHead (projr (appends wire_env new_Local ?ws)) = Inr h" "h \<noteq> []"
    "ReadAndUnmarshal (json_Unmarshal_Block wire_env)
       (Local_store (projr (appends wire_env new_Local ?ws))) h = Inr blk"
    "walk_back wire_env 2
       (blk\<lparr> Block.Hash := h,
             Block.Store := Some (Local_store (projr (appends wire_env new_Local ?ws))) \<rparr>) =
       (bs, Some ErrNoPrev)"
    "length bs = 2" "map Block bs = map int (rev [1..<Suc 2])"
    by auto
  moreover have "map int (rev [1..<Suc 2]) = [2, 1]"
    by (simp add: numeral_2_eq_2)
  ultimately show ?thesis by auto
qed

theorem Previous_no_prev_witness:
  "(let x1 = WContent ''doc'' [] ''blob1'' [];
        h1 = wire_Hasher x1;
        s = [(h1, x1)];
        c2 = \<lparr> Id = ''doc'', PreviousContentHash = h1, BlobHash = ''blob2'', IndexedFields = [],
               Hash = ''h2'', Index = 1, Store = Some s \<rparr>;
        c1 = \<lparr> Id = ''doc'', PreviousContentHash = [], BlobHash = ''blob1'', IndexedFields = [],
               Hash = h1, Index = 2, Store = Some s \<rparr>
    in Content_Previous wire_env c2 = Inr c1 \<and> Content_Previous wire_env c1 = Inl ErrNoPrev \<and>
       Content_Previous wire_env (c2\<lparr> Content.Store := None \<rparr>) =
         Inl (ErrorsNew ''content: Store not set'')) \<and>
   (let y1 = WBlock 1 [] ''c1'';
        g1 = wire_Hasher y1;
        s = [(g1, y1)];
        b2 = \<lparr> Block = 2, PreviousBlockHash = g1, ContentHash = ''c2'', Hash = ''g2'',
               Store = Some s \<rparr>;
        b1 = \<lparr> Block = 1, PreviousBlockHash = [], ContentHash = ''c1'', Hash = g1,
               Store = Some s \<rparr>
    in Block_Previous wire_env b2 = Inr b1 \<and> Block_Previous wire_env b1 = Inl ErrNoPrev \<and>
       Block_Previous wire_env (b2\<lparr> Block.Hash := [], PreviousBlockHash := ''gone'' \<rparr>) =
         Inl (Stack (Stack HashNotFoundErr)))"
proof -
  define x1 where "x1 = WContent ''doc'' [] ''blob1'' []"
  define s where "s = [(wire_Hasher x1, x1)]"
  define c1 :: "wire Content" where "c1 = \<lparr> Id = ''doc'', PreviousContentHash = [],
    BlobHash = ''blob1'', IndexedFields = [], Hash = wire_Hasher x1, Index = 2, Store = Some s \<rparr>"
  define y1 where "y1 = WBlock 1 [] ''c1''"
  define t where "t = [(wire_Hasher y1, y1)]"
  define b1 :: "wire Block" where "b1 = \<lparr> Block = 1, PreviousBlockHash = [], ContentHash = ''c1'',
    Hash = wire_Hasher y1, Store = Some t \<rparr>"
  have pc: "PreviousContentHash c1 = []" by (simp add: c1_def)
  have pb: "PreviousBlockHash b1 = []" by (simp add: b1_def)
  from Previous_no_prev [of wire_env c1 b1] pc pb
  have e: "Content_Previous wire_env c1 = Inl ErrNoPrev" "Block_Previous wire_env b1 = Inl ErrNoPrev"
    by blast+
  have "Content_Previous wire_env \<lparr> Id = ''doc'', PreviousContentHash = wire_Hasher x1,
      BlobHash = ''blob2'', IndexedFields = [], Hash = ''h2'', Index = 1, Store = Some s \<rparr> = Inr c1"
    by (simp add: Content_Previous_def ReadAndUnmarshal_def ReadAll_def blobs_Read_def
        wire_env_def wire_Unmarshal_Content_def s_def x1_def c1_def wrap64_def Let_def)
  moreover have "Content_Previous wire_env \<lparr> Id = ''doc'', PreviousContentHash = wire_Hasher x1,
      BlobHash = ''blob2'', IndexedFields = [], Hash = ''h2'', Index = 1, Store = None \<rparr> =
      Inl (ErrorsNew ''content: Store not set'')"
    by (simp add: Content_Previous_def)
  moreover have "Block_Previous wire_env \<lparr> Block = 2, PreviousBlockHash = wire_Hasher y1,
      ContentHash = ''c2'', Hash = ''g2'', Store = Some t \<rparr> = Inr b1"
    by (simp add: Block_Previous_def ReadAndUnmarshal_def ReadAll_def blobs_Read_def
        wire_env_def wire_Unmarshal_Block_def t_def y1_def b1_def)
  moreover have "Block_Previous wire_env \<lparr> Block = 2, PreviousBlockHash = ''gone'',
      ContentHash = ''c2'', Hash = [], Store = Some t \<rparr> = Inl (Stack (Stack HashNotFoundErr))"
    by (simp add: Block_Previous_def ReadAndUnmarshal_def ReadAll_def blobs_Read_def
        t_def wire_Hasher_def)
  ultimately show ?thesis
    using e by (simp add: Let_def x1_def s_def c1_def y1_def t_def b1_def)
qed

end
